theory Spec2Isabelle
  imports Main "HOL-Library.Word"
begin

section \<open>C and Win32 types used by cpu\_stress.c\<close>

text \<open>
  The program is a single C file for Windows. \<open>int\<close> and \<open>LONG\<close> are 32-bit signed,
  \<open>DWORD\<close> is 32-bit unsigned, \<open>DWORD_PTR\<close> is pointer-sized (64 bits on the
  x64 target). All of them are machine words here; a signed comparison of the source
  (\<open><\<close>, \<open><=\<close> on \<open>int\<close>) is written on \<open>sint\<close>.
\<close>

type_synonym c_int = "32 word"
type_synonym LONG = "32 word"
type_synonym DWORD = "32 word"
type_synonym DWORD_PTR = "64 word"
type_synonym HANDLE = nat

definition NULL :: HANDLE where
  "NULL = 0"

definition EXIT_SUCCESS :: c_int where
  "EXIT_SUCCESS = 0"

definition EXIT_FAILURE :: c_int where
  "EXIT_FAILURE = 1"

definition INT_MAX :: int where
  "INT_MAX = 2147483647"

definition INT_MIN :: int where
  "INT_MIN = - 2147483648"

subsection \<open>The C library's \<open>atoi\<close>\<close>

text \<open>
  \<open>atoi\<close> is the C runtime's, not this repository's. Its documented behaviour on the
  Windows runtime: skip leading white space, read an optional sign and then decimal
  digits up to the first character that is not a digit; no digit at all gives 0; a value
  out of range gives \<open>INT_MAX\<close> or \<open>INT_MIN\<close>.
\<close>

definition isspace_c :: "char \<Rightarrow> bool" where
  "isspace_c c = (c = CHR '' '' \<or> (9 \<le> (of_char c :: nat) \<and> (of_char c :: nat) \<le> 13))"

definition isdigit_c :: "char \<Rightarrow> bool" where
  "isdigit_c c = (48 \<le> (of_char c :: nat) \<and> (of_char c :: nat) \<le> 57)"

fun digits_value :: "int \<Rightarrow> string \<Rightarrow> int" where
  "digits_value acc [] = acc"
| "digits_value acc (c # cs) =
     (if isdigit_c c then digits_value (acc * 10 + (int (of_char c) - 48)) cs else acc)"

definition saturate_int :: "int \<Rightarrow> c_int" where
  "saturate_int v = word_of_int (max INT_MIN (min INT_MAX v))"

definition atoi :: "string \<Rightarrow> c_int" where
  "atoi s =
     (case dropWhile isspace_c s of
        [] \<Rightarrow> 0
      | c # cs \<Rightarrow>
          if c = CHR ''-'' then saturate_int (- digits_value 0 cs)
          else if c = CHR ''+'' then saturate_int (digits_value 0 cs)
          else saturate_int (digits_value 0 (c # cs)))"

section \<open>\<open>main\<close>: the configuration (lines 65--72)\<close>

text \<open>
  \<open>int num_cpus = (int)si.dwNumberOfProcessors; if (num_cpus < 1) num_cpus = 1;\<close>
  The cast keeps the 32 bits; the comparison is signed.
\<close>

definition num_cpus_of :: "DWORD \<Rightarrow> c_int" where
  "num_cpus_of dwNumberOfProcessors =
     (if sint dwNumberOfProcessors < 1 then 1 else dwNumberOfProcessors)"

text \<open>
  \<open>int num_threads = (argc >= 3) ? atoi(argv[2]) : num_cpus;\<close>
  \<open>if (num_threads <= 0) num_threads = 1;\<close>
  \<open>if (num_threads > num_cpus) num_threads = num_cpus;\<close>
  The request is \<open>None\<close> when \<open>argc < 3\<close>, else the value \<open>atoi\<close> returned.
\<close>

definition num_threads_of :: "c_int option \<Rightarrow> c_int \<Rightarrow> c_int" where
  "num_threads_of requested num_cpus =
     (let n0 = (case requested of None \<Rightarrow> num_cpus | Some r \<Rightarrow> r);
          n1 = (if sint n0 \<le> 0 then 1 else n0)
      in if sint n1 > sint num_cpus then num_cpus else n1)"

section \<open>Output formatting\<close>

text \<open>\<open>printf\<close>'s \<open>%d\<close> and \<open>%lu\<close>: decimal digits, a minus sign for a negative \<open>int\<close>.\<close>

fun show_nat :: "nat \<Rightarrow> string" where
  "show_nat n =
     (if n < 10 then [char_of (48 + n)]
      else show_nat (n div 10) @ [char_of (48 + n mod 10)])"

declare show_nat.simps [simp del]

definition show_int :: "c_int \<Rightarrow> string" where
  "show_int v = (if sint v < 0 then CHR ''-'' # show_nat (nat (- sint v)) else show_nat (nat (sint v)))"

definition show_ulong :: "DWORD \<Rightarrow> string" where
  "show_ulong v = show_nat (unat v)"

section \<open>The operating system as seen by \<open>main\<close>\<close>

text \<open>
  What the Win32 calls and \<open>calloc\<close> answer is an input of the run:
  the processor count reported by \<open>GetSystemInfo\<close>, whether
  \<open>SetConsoleCtrlHandler\<close> and \<open>calloc\<close> succeed, and, for the \<open>i\<close>-th
  \<open>CreateThread\<close>, the handle returned (\<open>NULL\<close> on failure) and the
  \<open>GetLastError\<close> code that follows a failure.
\<close>

record os_env =
  dwNumberOfProcessors :: DWORD
  handler_registered :: bool
  calloc_ok :: bool
  thread_handle :: "nat \<Rightarrow> HANDLE"
  thread_error :: "nat \<Rightarrow> DWORD"

text \<open>
  A run of \<open>main\<close> is the sequence of its calls, in program order, and its exit status.
  \<open>CreateThread p h\<close>: the call with \<open>lpParameter = p\<close> returned \<open>h\<close>.
  \<open>WaitForMultipleObjects n hs r\<close>: the call with \<open>nCount = n\<close> on the array
  \<open>hs\<close>, \<open>bWaitAll = TRUE\<close>, \<open>INFINITE\<close>, returned \<open>r\<close>.
\<close>

datatype event =
    Printf string
  | Fprintf_stderr string
  | SetConsoleCtrlHandler bool
  | Calloc nat
  | CreateThread DWORD_PTR HANDLE
  | Sleep DWORD
  | InterlockedExchange_stop LONG
  | WaitForMultipleObjects DWORD "HANDLE list" DWORD
  | CloseHandle HANDLE
  | Free

definition WAIT_OBJECT_0 :: DWORD where
  "WAIT_OBJECT_0 = 0"

definition WAIT_FAILED :: DWORD where
  "WAIT_FAILED = 0xFFFFFFFF"

definition MAXIMUM_WAIT_OBJECTS :: nat where
  "MAXIMUM_WAIT_OBJECTS = 64"

text \<open>
  \<open>WaitForMultipleObjects(nCount, lpHandles, TRUE, INFINITE)\<close> as Win32 documents it:
  the call fails at once with \<open>WAIT_FAILED\<close>, waiting for nothing, when \<open>nCount\<close> is
  zero or above \<open>MAXIMUM_WAIT_OBJECTS\<close> or when an entry of the array is not a valid
  handle (\<open>NULL\<close> is none); otherwise it returns \<open>WAIT_OBJECT_0\<close> once every
  thread of the array has exited.
\<close>

definition wait_all :: "DWORD \<Rightarrow> HANDLE list \<Rightarrow> DWORD" where
  "wait_all nCount hs =
     (if unat nCount = 0 \<or> MAXIMUM_WAIT_OBJECTS < unat nCount \<or> NULL \<in> set (take (unat nCount) hs)
      then WAIT_FAILED else WAIT_OBJECT_0)"

section \<open>\<open>main\<close>: the spawn loop (lines 89--103) and the release loop (lines 111--115)\<close>

function spawn_loop :: "os_env \<Rightarrow> c_int \<Rightarrow> c_int \<Rightarrow> HANDLE list \<Rightarrow> event list \<times> HANDLE list" where
  "spawn_loop os num_threads i threads =
     (if sint i < sint num_threads then
        (let h = thread_handle os (nat (sint i));
             threads' = threads[nat (sint i) := h];
             warn = (if h = NULL
                     then [Fprintf_stderr (''Erro ao criar thread '' @ show_int i @ '' (erro ''
                             @ show_ulong (thread_error os (nat (sint i))) @ '')\<newline>'')]
                     else []);
             (evs, threads'') = spawn_loop os num_threads (i + 1) threads'
         in (CreateThread (scast i) h # warn @ evs, threads''))
      else ([], threads))"
  by pat_completeness auto
termination
proof (relation "measure (\<lambda>(os, num_threads, i, threads). nat (sint num_threads - sint i))")
  show "wf (measure (\<lambda>(os, num_threads, i, threads). nat (sint num_threads - sint i)))"
    by simp
next
  fix os :: os_env and num_threads i :: c_int and threads :: "HANDLE list" and x xa xb
  assume less: "sint i < sint num_threads"
  have "sint num_threads < 2 ^ 31"
    using sint_lt [of num_threads] by simp
  moreover have "- (2 ^ 31) \<le> sint i"
    using sint_ge [of i] by simp
  ultimately have "- (2 ^ 31) \<le> sint i + 1" and "sint i + 1 < 2 ^ 31"
    using less by auto
  then have "sint (i + 1) = sint i + 1"
    by (simp add: sint_word_ariths signed_take_bit_int_eq_self)
  with less show "((os, num_threads, i + 1, xa), (os, num_threads, i, threads))
      \<in> measure (\<lambda>(os, num_threads, i, threads). nat (sint num_threads - sint i))"
    by simp
qed

declare spawn_loop.simps [simp del]

text \<open>
  \<open>for (int i = 0; i < num_threads; i++) if (threads[i]) CloseHandle(threads[i]);\<close>
  The array has \<open>num_threads\<close> entries, so every index read is in range.
\<close>

function close_loop :: "c_int \<Rightarrow> c_int \<Rightarrow> HANDLE list \<Rightarrow> event list" where
  "close_loop num_threads i threads =
     (if sint i < sint num_threads then
        (if threads ! nat (sint i) = NULL then [] else [CloseHandle (threads ! nat (sint i))])
        @ close_loop num_threads (i + 1) threads
      else [])"
  by pat_completeness auto
termination
proof (relation "measure (\<lambda>(num_threads, i, threads). nat (sint num_threads - sint i))")
  show "wf (measure (\<lambda>(num_threads, i, threads). nat (sint num_threads - sint i)))"
    by simp
next
  fix num_threads i :: c_int and threads :: "HANDLE list"
  assume less: "sint i < sint num_threads"
  have "sint num_threads < 2 ^ 31"
    using sint_lt [of num_threads] by simp
  moreover have "- (2 ^ 31) \<le> sint i"
    using sint_ge [of i] by simp
  ultimately have "- (2 ^ 31) \<le> sint i + 1" and "sint i + 1 < 2 ^ 31"
    using less by auto
  then have "sint (i + 1) = sint i + 1"
    by (simp add: sint_word_ariths signed_take_bit_int_eq_self)
  with less show "((num_threads, i + 1, threads), (num_threads, i, threads))
      \<in> measure (\<lambda>(num_threads, i, threads). nat (sint num_threads - sint i))"
    by simp
qed

declare close_loop.simps [simp del]

section \<open>\<open>main\<close> (lines 52--120)\<close>

text \<open>
  \<open>argc\<close> is the length of \<open>argv\<close>. The Windows runtime always passes the program
  name as \<open>argv[0]\<close>; for an empty vector \<open>argv[0]\<close> is the null pointer, which
  its \<open>printf\<close> shows as \<open>(null)\<close>.
\<close>

definition program_name :: "string list \<Rightarrow> string" where
  "program_name argv = (case argv of [] \<Rightarrow> ''(null)'' | p # _ \<Rightarrow> p)"

definition usage_message :: "string \<Rightarrow> string" where
  "usage_message prog = ''Uso: '' @ prog @ '' <duracao_em_segundos> [num_threads]\<newline>''"

definition banner :: "c_int \<Rightarrow> c_int \<Rightarrow> c_int \<Rightarrow> string" where
  "banner duration num_threads num_cpus =
     ''Estressando CPU por '' @ show_int duration @ '' segundos usando '' @ show_int num_threads
       @ '' threads (de '' @ show_int num_cpus @ '' CPUs logicos)\<newline>''"

text \<open>Lines 74--83: the banner, the registration of the handler, the allocation.\<close>

definition startup :: "os_env \<Rightarrow> c_int \<Rightarrow> c_int \<Rightarrow> c_int \<Rightarrow> event list" where
  "startup os duration num_threads num_cpus =
     [Printf (banner duration num_threads num_cpus),
      SetConsoleCtrlHandler (handler_registered os)]
     @ (if handler_registered os then []
        else [Fprintf_stderr ''Aviso: nao foi possivel registrar ConsoleCtrlHandler.\<newline>''])
     @ [Calloc (nat (sint num_threads))]"

text \<open>
  Lines 89--118, reached when the allocation succeeded: spawn, sleep, store the flag,
  wait, release, report. \<open>calloc\<close> hands out an array of \<open>num_threads\<close> null
  handles; \<open>(DWORD)duration * 1000\<close> wraps at 32 bits.
\<close>

definition run_workers :: "os_env \<Rightarrow> c_int \<Rightarrow> c_int \<Rightarrow> event list" where
  "run_workers os duration num_threads =
     (let (spawn, threads) =
            spawn_loop os num_threads 0 (replicate (nat (sint num_threads)) NULL)
      in spawn
         @ [Sleep (duration * 1000),
            InterlockedExchange_stop 1,
            WaitForMultipleObjects num_threads threads (wait_all num_threads threads)]
         @ close_loop num_threads 0 threads
         @ [Free, Printf ''Finalizado.\<newline>''])"

text \<open>\<open>(argc >= 3) ? atoi(argv[2]) : num_cpus\<close>: the request, if there is one.\<close>

definition requested :: "string list \<Rightarrow> c_int option" where
  "requested argv = (if 3 \<le> length argv then Some (atoi (argv ! 2)) else None)"

definition main :: "os_env \<Rightarrow> string list \<Rightarrow> event list \<times> c_int" where
  "main os argv =
     (if length argv < 2 then
        ([Fprintf_stderr (usage_message (program_name argv))], EXIT_FAILURE)
      else
        let duration = atoi (argv ! 1) in
        if sint duration \<le> 0 then
          ([Fprintf_stderr ''Duracao invalida\<newline>''], EXIT_FAILURE)
        else
          let num_cpus = num_cpus_of (dwNumberOfProcessors os);
              num_threads = num_threads_of (requested argv) num_cpus;
              start = startup os duration num_threads num_cpus
          in
          if calloc_ok os then (start @ run_workers os duration num_threads, EXIT_SUCCESS)
          else (start @ [Fprintf_stderr ''Erro de memoria\<newline>''], EXIT_FAILURE))"

subsection \<open>Reading a run\<close>

definition stderr_of :: "event list \<Rightarrow> string list" where
  "stderr_of evs = concat (map (\<lambda>e. case e of Fprintf_stderr s \<Rightarrow> [s] | _ \<Rightarrow> []) evs)"

definition stdout_of :: "event list \<Rightarrow> string list" where
  "stdout_of evs = concat (map (\<lambda>e. case e of Printf s \<Rightarrow> [s] | _ \<Rightarrow> []) evs)"

text \<open>
  The thread count as the run shows it: the number of entries asked of \<open>calloc\<close>,
  and the \<open>nCount\<close> handed to \<open>WaitForMultipleObjects\<close>.
\<close>

definition calloc_sizes :: "event list \<Rightarrow> nat list" where
  "calloc_sizes evs = concat (map (\<lambda>e. case e of Calloc n \<Rightarrow> [n] | _ \<Rightarrow> []) evs)"

definition wait_counts :: "event list \<Rightarrow> DWORD list" where
  "wait_counts evs =
     concat (map (\<lambda>e. case e of WaitForMultipleObjects n hs r \<Rightarrow> [n] | _ \<Rightarrow> []) evs)"

text \<open>The parameters handed to the workers, in spawn order, failed spawns included.\<close>

definition thread_params :: "event list \<Rightarrow> DWORD_PTR list" where
  "thread_params evs = concat (map (\<lambda>e. case e of CreateThread p h \<Rightarrow> [p] | _ \<Rightarrow> []) evs)"

text \<open>The handles of the workers that did start.\<close>

definition spawned :: "event list \<Rightarrow> HANDLE list" where
  "spawned evs =
     concat (map (\<lambda>e. case e of CreateThread p h \<Rightarrow> (if h = NULL then [] else [h]) | _ \<Rightarrow> []) evs)"

text \<open>The handles whose threads a wait of the run has waited for: those of a call that did not fail.\<close>

definition joined :: "event list \<Rightarrow> HANDLE list" where
  "joined evs =
     concat (map (\<lambda>e. case e of
        WaitForMultipleObjects n hs r \<Rightarrow> (if r = WAIT_FAILED then [] else take (unat n) hs)
      | _ \<Rightarrow> []) evs)"

section \<open>\<open>worker_thread\<close>: entry (lines 23--27)\<close>

text \<open>
  \<open>main\<close> passes \<open>(LPVOID)(intptr_t)i\<close> (sign extension to pointer size) and the worker
  reads \<open>(int)(intptr_t)lpParam\<close> (truncation). The affinity mask is
  \<open>((DWORD_PTR)1) << cpu_index\<close>. For an index from 0 to 63 that is bit
  \<open>cpu_index\<close>; outside this range C leaves the shift undefined, and the 64-bit shift
  of the x64 target takes the low six bits of the count, which is what is written here.
\<close>

definition cpu_index_of :: "DWORD_PTR \<Rightarrow> c_int" where
  "cpu_index_of lpParam = ucast lpParam"

definition affinity_mask :: "c_int \<Rightarrow> DWORD_PTR" where
  "affinity_mask cpu_index = push_bit (unat cpu_index mod 64) 1"

section \<open>The process: stop flag, console handler, workers\<close>

text \<open>
  The threads of the process share one state: \<open>g_stop_flag\<close> (line 6), the two
  output streams, and one entry per running worker. A worker is at its entry, at the
  test of the flag (line 37), inside the batch with loop counter \<open>i\<close> (line 40), or has
  returned. The \<open>double\<close> of the batch is kept abstract: its type is a parameter, its
  start value and the three assignments of lines 41--43 are given by the environment.
\<close>

datatype wpc = Entry | Check | Batch nat | Returned DWORD

record 'x worker =
  lpParam :: DWORD_PTR
  pc :: wpc
  x :: 'x

record 'x process =
  g_stop_flag :: LONG
  workers :: "'x worker list"
  out_log :: "string list"
  err_log :: "string list"

record 'x worker_env =
  x_init :: 'x
  body :: "'x \<Rightarrow> 'x"
  old_mask :: "nat \<Rightarrow> DWORD_PTR"
  affinity_error :: "nat \<Rightarrow> DWORD"

text \<open>\<open>static volatile LONG g_stop_flag = 0;\<close> and nothing started yet.\<close>

definition initial :: "'x process" where
  "initial = \<lparr>g_stop_flag = 0, workers = [], out_log = [], err_log = []\<rparr>"

text \<open>\<open>InterlockedExchange(&g_stop_flag, v)\<close>: stores \<open>v\<close>, returns the old value.\<close>

definition InterlockedExchange :: "LONG \<Rightarrow> 'x process \<Rightarrow> LONG \<times> 'x process" where
  "InterlockedExchange v s = (g_stop_flag s, s\<lparr>g_stop_flag := v\<rparr>)"

definition CTRL_C_EVENT :: DWORD where
  "CTRL_C_EVENT = 0"

definition CTRL_BREAK_EVENT :: DWORD where
  "CTRL_BREAK_EVENT = 1"

definition CTRL_CLOSE_EVENT :: DWORD where
  "CTRL_CLOSE_EVENT = 2"

definition CTRL_LOGOFF_EVENT :: DWORD where
  "CTRL_LOGOFF_EVENT = 5"

definition CTRL_SHUTDOWN_EVENT :: DWORD where
  "CTRL_SHUTDOWN_EVENT = 6"

definition TRUE :: c_int where
  "TRUE = 1"

definition FALSE :: c_int where
  "FALSE = 0"

text \<open>\<open>ConsoleCtrlHandler\<close> (lines 7--19).\<close>

definition ConsoleCtrlHandler :: "DWORD \<Rightarrow> 'x process \<Rightarrow> c_int \<times> 'x process" where
  "ConsoleCtrlHandler ctrl_type s =
     (if ctrl_type = CTRL_C_EVENT \<or> ctrl_type = CTRL_BREAK_EVENT
         \<or> ctrl_type = CTRL_CLOSE_EVENT \<or> ctrl_type = CTRL_SHUTDOWN_EVENT
      then (TRUE, snd (InterlockedExchange 1 s))
      else (FALSE, s))"

text \<open>
  One step of \<open>worker_thread\<close> (lines 21--50) for worker number \<open>k\<close>, given the value
  its read of \<open>g_stop_flag\<close> yields; the result is the worker after the step and what
  it wrote to standard error.
  \<^item> entry: compute the mask, call \<open>SetThreadAffinityMask\<close>, warn when it returns 0,
    initialise \<open>x\<close>;
  \<^item> test: \<open>if (g_stop_flag) break;\<close> and then \<open>return 0\<close>, else start the batch at
    \<open>i = 0\<close>;
  \<^item> batch: while \<open>i < 100000\<close> one round of arithmetic and \<open>i++\<close>, else back to
    the test.
\<close>

definition worker_thread_step ::
  "'x worker_env \<Rightarrow> nat \<Rightarrow> LONG \<Rightarrow> 'x worker \<Rightarrow> 'x worker \<times> string list" where
  "worker_thread_step env k flag w =
     (case pc w of
        Entry \<Rightarrow>
          (w\<lparr>pc := Check, x := x_init env\<rparr>,
           if old_mask env k = 0
           then [''[Thread '' @ show_int (cpu_index_of (lpParam w))
                   @ ''] Erro em SetThreadAffinityMask ('' @ show_ulong (affinity_error env k)
                   @ '')\<newline>'']
           else [])
      | Check \<Rightarrow> (if flag = 0 then w\<lparr>pc := Batch 0\<rparr> else w\<lparr>pc := Returned 0\<rparr>, [])
      | Batch i \<Rightarrow>
          (if i < 100000 then w\<lparr>pc := Batch (i + 1), x := body env (x w)\<rparr> else w\<lparr>pc := Check\<rparr>, [])
      | Returned r \<Rightarrow> (w, []))"

text \<open>
  The actions that can be interleaved: the system calls the handler with some control
  type, \<open>main\<close> reaches line 107, \<open>main\<close> has created a worker with some parameter,
  or worker \<open>k\<close> runs its next step. A schedule is a list of actions; every
  interleaving of the threads is some schedule.
\<close>

datatype action = Ctrl DWORD | Timeout | Spawn DWORD_PTR | Run nat

definition step :: "'x worker_env \<Rightarrow> action \<Rightarrow> 'x process \<Rightarrow> 'x process" where
  "step env a s =
     (case a of
        Ctrl ctrl_type \<Rightarrow> snd (ConsoleCtrlHandler ctrl_type s)
      | Timeout \<Rightarrow> snd (InterlockedExchange 1 s)
      | Spawn p \<Rightarrow> s\<lparr>workers := workers s @ [\<lparr>lpParam = p, pc = Entry, x = x_init env\<rparr>]\<rparr>
      | Run k \<Rightarrow>
          (if k < length (workers s) then
             (let (w, msgs) = worker_thread_step env k (g_stop_flag s) (workers s ! k)
              in s\<lparr>workers := (workers s)[k := w], err_log := err_log s @ msgs\<rparr>)
           else s))"

fun run :: "'x worker_env \<Rightarrow> action list \<Rightarrow> 'x process \<Rightarrow> 'x process" where
  "run env [] s = s"
| "run env (a # as) s = run env as (step env a s)"

text \<open>The writers of the flag, and those whose store takes place.\<close>

definition is_writer :: "action \<Rightarrow> bool" where
  "is_writer a = (case a of Ctrl c \<Rightarrow> True | Timeout \<Rightarrow> True | _ \<Rightarrow> False)"

definition sets_stop :: "action \<Rightarrow> bool" where
  "sets_stop a =
     (case a of
        Ctrl c \<Rightarrow> c = CTRL_C_EVENT \<or> c = CTRL_BREAK_EVENT \<or> c = CTRL_CLOSE_EVENT \<or> c = CTRL_SHUTDOWN_EVENT
      | Timeout \<Rightarrow> True
      | _ \<Rightarrow> False)"

text \<open>
  With the flag set, how many of its own steps a worker still takes before it has
  returned, and how many rounds of arithmetic are among them.
\<close>

definition steps_left :: "'x worker \<Rightarrow> nat" where
  "steps_left w = (case pc w of Entry \<Rightarrow> 2 | Check \<Rightarrow> 1 | Batch i \<Rightarrow> (100000 - i) + 2 | Returned r \<Rightarrow> 0)"

definition iterations_left :: "'x worker \<Rightarrow> nat" where
  "iterations_left w = (case pc w of Batch i \<Rightarrow> 100000 - i | _ \<Rightarrow> 0)"

definition in_loop :: "'x worker \<Rightarrow> bool" where
  "in_loop w = (case pc w of Check \<Rightarrow> True | Batch i \<Rightarrow> True | _ \<Rightarrow> False)"

text \<open>The worker as it is once it has left the loop: returned 0, the pending rounds done.\<close>

definition finished :: "'x worker_env \<Rightarrow> 'x worker \<Rightarrow> 'x worker" where
  "finished env w = w\<lparr>pc := Returned 0, x := (body env ^^ iterations_left w) (x w)\<rparr>"

section \<open>Concrete runs\<close>

text \<open>
  A two-processor and an eight-processor machine where every call succeeds, and a
  two-processor one where the second thread cannot be created; an environment for the workers, with a counter in place of the
  \<open>double\<close>; two processes whose flag is set, with workers in the last round of a
  batch, at the test, and at the end of a batch.
\<close>

definition example_os :: os_env where
  "example_os =
     \<lparr>dwNumberOfProcessors = 2, handler_registered = True, calloc_ok = True,
      thread_handle = (\<lambda>i. 100 + i), thread_error = (\<lambda>i. 0)\<rparr>"

definition failing_os :: os_env where
  "failing_os =
     \<lparr>dwNumberOfProcessors = 2, handler_registered = True, calloc_ok = True,
      thread_handle = (\<lambda>i. if i = 0 then 100 else NULL), thread_error = (\<lambda>i. 8)\<rparr>"

definition example_env :: "nat worker_env" where
  "example_env = \<lparr>x_init = 0, body = Suc, old_mask = (\<lambda>k. 1), affinity_error = (\<lambda>k. 0)\<rparr>"

definition stopping_process :: "nat process" where
  "stopping_process =
     \<lparr>g_stop_flag = 1, workers = [\<lparr>lpParam = 0, pc = Batch 99999, x = 7\<rparr>],
      out_log = [], err_log = []\<rparr>"

definition set_process :: "nat process" where
  "set_process =
     \<lparr>g_stop_flag = 1,
      workers = [\<lparr>lpParam = 0, pc = Check, x = 7\<rparr>, \<lparr>lpParam = 1, pc = Batch 100000, x = 3\<rparr>],
      out_log = [], err_log = []\<rparr>"

definition eight_cpu_os :: os_env where
  "eight_cpu_os =
     \<lparr>dwNumberOfProcessors = 8, handler_registered = True, calloc_ok = True,
      thread_handle = (\<lambda>i. 100 + i), thread_error = (\<lambda>i. 0)\<rparr>"

section \<open>Facts about the configuration\<close>

lemma num_cpus_of_ge1: "1 \<le> sint (num_cpus_of dw)"
  by (simp add: num_cpus_of_def)

lemma num_threads_of_range:
  "1 \<le> sint (num_threads_of req (num_cpus_of dw))
   \<and> sint (num_threads_of req (num_cpus_of dw)) \<le> sint (num_cpus_of dw)"
  using num_cpus_of_ge1 [of dw]
  by (auto simp: num_threads_of_def Let_def split: option.splits)

text \<open>A string without a leading number reads as 0.\<close>

lemma atoi_no_digit:
  assumes "dropWhile isspace_c s = c # cs" and "c \<noteq> CHR ''-''" and "c \<noteq> CHR ''+''"
    and "\<not> isdigit_c c"
  shows "atoi s = 0"
  unfolding atoi_def assms(1) using assms(2,3,4)
  by (simp add: saturate_int_def INT_MIN_def INT_MAX_def)

section \<open>Facts about the loops of \<open>main\<close>\<close>

lemma sint_succ: "sint (i::c_int) < sint (n::c_int) \<Longrightarrow> sint (i + 1) = sint i + 1"
proof -
  assume less: "sint i < sint n"
  have "sint n < 2 ^ 31"
    using sint_lt [of n] by simp
  moreover have "- (2 ^ 31) \<le> sint i"
    using sint_ge [of i] by simp
  ultimately have "- (2 ^ 31) \<le> sint i + 1" and "sint i + 1 < 2 ^ 31"
    using less by auto
  then show ?thesis
    by (simp add: sint_word_ariths signed_take_bit_int_eq_self)
qed

lemma word_of_nat_sint: "0 \<le> sint (i::c_int) \<Longrightarrow> word_of_nat (nat (sint i)) = i"
  by (simp add: word_of_nat_eq_iff)

lemma sint_word_of_nat: "k < 2 ^ 31 \<Longrightarrow> sint (word_of_nat k :: c_int) = int k"
proof -
  assume "k < 2 ^ 31"
  then have "int k < 2 ^ 31" by simp
  then show ?thesis
    by (simp add: signed_of_nat signed_take_bit_int_eq_self)
qed

lemma sint_lt_2p31: "nat (sint (n::c_int)) < 2 ^ 31"
  using sint_lt [of n] by (simp add: nat_less_iff)

lemma thread_params_Cons:
  "thread_params (CreateThread p h # evs) = p # thread_params evs"
  by (simp add: thread_params_def)

lemma thread_params_append:
  "thread_params (as @ bs) = thread_params as @ thread_params bs"
  by (simp add: thread_params_def)

lemma thread_params_warn:
  "thread_params (if c then [Fprintf_stderr m] else []) = []"
  by (simp add: thread_params_def)

lemma thread_params_close: "thread_params (map CloseHandle hs) = []"
  by (induction hs) (simp_all add: thread_params_def)

lemma thread_params_startup: "thread_params (startup os d n c) = []"
  by (simp add: startup_def thread_params_def)

lemma spawn_loop_params:
  "0 \<le> sint i \<Longrightarrow>
   thread_params (fst (spawn_loop os n i ths))
     = map (\<lambda>k. scast (word_of_nat k :: c_int)) [nat (sint i) ..< nat (sint n)]"
proof (induction os n i ths rule: spawn_loop.induct)
  case (1 os n i ths)
  show ?case
  proof (cases "sint i < sint n")
    case True
    have succ: "sint (i + 1) = sint i + 1"
      using True by (rule sint_succ)
    have IH: "thread_params (fst (spawn_loop os n (i + 1) (ths[nat (sint i) := thread_handle os (nat (sint i))])))
      = map (\<lambda>k. scast (word_of_nat k :: c_int)) [nat (sint (i + 1)) ..< nat (sint n)]"
      using "1.IH" [OF True refl refl refl] "1.prems" succ by simp
    have upt: "[nat (sint i) ..< nat (sint n)] = nat (sint i) # [nat (sint (i + 1)) ..< nat (sint n)]"
      using True "1.prems" succ by (simp add: upt_conv_Cons nat_add_distrib)
    show ?thesis
      using True IH "1.prems"
      by (subst spawn_loop.simps)
         (simp add: Let_def split_beta thread_params_Cons thread_params_append thread_params_warn
            upt word_of_nat_sint del: upt_Suc)
  next
    case False
    then show ?thesis
      by (subst spawn_loop.simps) (simp add: thread_params_def)
  qed
qed

lemma close_loop_eq:
  "0 \<le> sint i \<Longrightarrow>
   close_loop n i ths
     = map CloseHandle (filter (\<lambda>h. h \<noteq> NULL) (map (\<lambda>k. ths ! k) [nat (sint i) ..< nat (sint n)]))"
proof (induction n i ths rule: close_loop.induct)
  case (1 n i ths)
  show ?case
  proof (cases "sint i < sint n")
    case True
    have succ: "sint (i + 1) = sint i + 1"
      using True by (rule sint_succ)
    have IH: "close_loop n (i + 1) ths
      = map CloseHandle (filter (\<lambda>h. h \<noteq> NULL) (map (\<lambda>k. ths ! k) [nat (sint (i + 1)) ..< nat (sint n)]))"
      using "1.IH" [OF True] "1.prems" succ by simp
    have upt: "[nat (sint i) ..< nat (sint n)] = nat (sint i) # [nat (sint (i + 1)) ..< nat (sint n)]"
      using True "1.prems" succ by (simp add: upt_conv_Cons nat_add_distrib)
    show ?thesis
      using True IH by (subst close_loop.simps) (simp add: upt del: upt_Suc)
  next
    case False
    then show ?thesis
      by (subst close_loop.simps) simp
  qed
qed

lemma thread_params_run_workers:
  "thread_params (run_workers os d n) = map (\<lambda>k. scast (word_of_nat k :: c_int)) [0 ..< nat (sint n)]"
  using spawn_loop_params [of 0 os n]
  by (simp add: run_workers_def split_beta thread_params_append close_loop_eq thread_params_close
        thread_params_def [of "[]"] thread_params_def [of "_ # _"])

lemma main_valid:
  assumes "2 \<le> length argv" and "0 < sint (atoi (argv ! 1))" and "calloc_ok os"
  shows "main os argv =
    (startup os (atoi (argv ! 1)) (num_threads_of (requested argv) (num_cpus_of (dwNumberOfProcessors os)))
       (num_cpus_of (dwNumberOfProcessors os))
     @ run_workers os (atoi (argv ! 1)) (num_threads_of (requested argv) (num_cpus_of (dwNumberOfProcessors os))),
     EXIT_SUCCESS)"
  using assms by (simp add: main_def Let_def)

lemma main_thread_params:
  assumes "2 \<le> length argv" and "0 < sint (atoi (argv ! 1))" and "calloc_ok os"
  shows "thread_params (fst (main os argv))
    = map (\<lambda>k. scast (word_of_nat k :: c_int))
        [0 ..< nat (sint (num_threads_of (requested argv) (num_cpus_of (dwNumberOfProcessors os))))]"
  by (simp add: main_valid [OF assms] thread_params_append thread_params_startup thread_params_run_workers)

lemma main_no_spawn:
  assumes "\<not> (2 \<le> length argv \<and> 0 < sint (atoi (argv ! 1)) \<and> calloc_ok os)"
  shows "thread_params (fst (main os argv)) = []"
  using assms
  by (auto simp: main_def Let_def thread_params_append thread_params_startup
        thread_params_def [of "[_]"])

lemma cpu_index_roundtrip: "cpu_index_of (scast (i::c_int)) = i"
  unfolding cpu_index_of_def by (rule bit_word_eqI) (auto simp: bit_simps)

lemma affinity_mask_inj:
  assumes "i < 64" and "j < 64" and "push_bit i (1::DWORD_PTR) = push_bit j 1"
  shows "i = j"
proof -
  have "bit (push_bit i (1::DWORD_PTR)) i"
    using assms(1) by (simp add: bit_simps)
  then have "bit (push_bit j (1::DWORD_PTR)) i"
    using assms(3) by simp
  then show ?thesis
    by (auto simp: bit_simps)
qed

lemma spawn_loop_one:
  "spawn_loop os 1 0 ths
     = (CreateThread 0 (thread_handle os 0)
          # (if thread_handle os 0 = NULL
             then [Fprintf_stderr (''Erro ao criar thread '' @ show_int 0 @ '' (erro ''
                     @ show_ulong (thread_error os 0) @ '')\<newline>'')]
             else []),
        ths[0 := thread_handle os 0])"
  by (subst spawn_loop.simps, subst spawn_loop.simps) (simp add: Let_def)

lemma close_loop_one:
  "close_loop 1 0 ths = (if ths ! 0 = NULL then [] else [CloseHandle (ths ! 0)])"
  by (subst close_loop.simps, subst close_loop.simps) simp

lemma run_workers_one:
  "run_workers os d 1
     = CreateThread 0 (thread_handle os 0)
         # (if thread_handle os 0 = NULL
            then [Fprintf_stderr (''Erro ao criar thread '' @ show_int 0 @ '' (erro ''
                    @ show_ulong (thread_error os 0) @ '')\<newline>'')]
            else [])
         @ [Sleep (d * 1000), InterlockedExchange_stop 1,
            WaitForMultipleObjects 1 [thread_handle os 0] (wait_all 1 [thread_handle os 0])]
         @ (if thread_handle os 0 = NULL then [] else [CloseHandle (thread_handle os 0)])
         @ [Free, Printf ''Finalizado.\<newline>'']"
  by (simp add: run_workers_def spawn_loop_one close_loop_one)

section \<open>The thread count of a run\<close>

lemma spawn_loop_counts:
  "calloc_sizes (fst (spawn_loop os n i ths)) = [] \<and> wait_counts (fst (spawn_loop os n i ths)) = []"
proof (induction os n i ths rule: spawn_loop.induct)
  case (1 os n i ths)
  show ?case
  proof (cases "sint i < sint n")
    case True
    have IH: "calloc_sizes (fst (spawn_loop os n (i + 1) (ths[nat (sint i) := thread_handle os (nat (sint i))]))) = []
      \<and> wait_counts (fst (spawn_loop os n (i + 1) (ths[nat (sint i) := thread_handle os (nat (sint i))]))) = []"
      using "1.IH" [OF True refl refl refl] by simp
    have unfold: "fst (spawn_loop os n i ths)
      = CreateThread (scast i) (thread_handle os (nat (sint i)))
          # (if thread_handle os (nat (sint i)) = NULL
             then [Fprintf_stderr (''Erro ao criar thread '' @ show_int i @ '' (erro ''
                     @ show_ulong (thread_error os (nat (sint i))) @ '')\<newline>'')]
             else [])
          @ fst (spawn_loop os n (i + 1) (ths[nat (sint i) := thread_handle os (nat (sint i))]))"
      using True by (subst spawn_loop.simps) (simp add: Let_def split_beta)
    have "calloc_sizes (fst (spawn_loop os n i ths))
        = calloc_sizes (fst (spawn_loop os n (i + 1) (ths[nat (sint i) := thread_handle os (nat (sint i))])))"
      unfolding unfold by (simp add: calloc_sizes_def)
    moreover have "wait_counts (fst (spawn_loop os n i ths))
        = wait_counts (fst (spawn_loop os n (i + 1) (ths[nat (sint i) := thread_handle os (nat (sint i))])))"
      unfolding unfold by (simp add: wait_counts_def)
    ultimately show ?thesis
      using IH by simp
  next
    case False
    then show ?thesis
      by (subst (1 2) spawn_loop.simps) (simp add: calloc_sizes_def wait_counts_def)
  qed
qed

lemma counts_close:
  "calloc_sizes (map CloseHandle hs) = []" "wait_counts (map CloseHandle hs) = []"
  by (induction hs) (simp_all add: calloc_sizes_def wait_counts_def)

lemma counts_append:
  "calloc_sizes (as @ bs) = calloc_sizes as @ calloc_sizes bs"
  "wait_counts (as @ bs) = wait_counts as @ wait_counts bs"
  by (simp_all add: calloc_sizes_def wait_counts_def)

lemma counts_startup:
  "calloc_sizes (startup os d n c) = [nat (sint n)]" "wait_counts (startup os d n c) = []"
  by (simp_all add: startup_def calloc_sizes_def wait_counts_def)

lemma counts_run_workers:
  "calloc_sizes (run_workers os d n) = []" "wait_counts (run_workers os d n) = [n]"
proof -
  obtain spawn threads where sl: "spawn_loop os n 0 (replicate (nat (sint n)) NULL) = (spawn, threads)"
    by (cases "spawn_loop os n 0 (replicate (nat (sint n)) NULL)")
  have sp: "calloc_sizes spawn = []" "wait_counts spawn = []"
    using spawn_loop_counts [of os n 0 "replicate (nat (sint n)) NULL"] sl by simp_all
  have rw: "run_workers os d n
      = spawn @ [Sleep (d * 1000), InterlockedExchange_stop 1,
                 WaitForMultipleObjects n threads (wait_all n threads)]
          @ map CloseHandle (filter (\<lambda>h. h \<noteq> NULL) (map (\<lambda>k. threads ! k) [0 ..< nat (sint n)]))
          @ [Free, Printf ''Finalizado.\<newline>'']"
    by (simp add: run_workers_def sl close_loop_eq)
  show "calloc_sizes (run_workers os d n) = []"
    unfolding rw counts_append sp counts_close by (simp add: calloc_sizes_def)
  show "wait_counts (run_workers os d n) = [n]"
    unfolding rw counts_append sp counts_close by (simp add: wait_counts_def)
qed

lemma main_counts:
  assumes "2 \<le> length argv" and "0 < sint (atoi (argv ! 1))"
  shows "calloc_sizes (fst (main os argv))
      = [nat (sint (num_threads_of (requested argv) (num_cpus_of (dwNumberOfProcessors os))))]"
    and "calloc_ok os \<Longrightarrow> wait_counts (fst (main os argv))
      = [num_threads_of (requested argv) (num_cpus_of (dwNumberOfProcessors os))]"
proof -
  show "calloc_sizes (fst (main os argv))
      = [nat (sint (num_threads_of (requested argv) (num_cpus_of (dwNumberOfProcessors os))))]"
  proof (cases "calloc_ok os")
    case True
    show ?thesis
      by (simp add: main_valid [OF assms True] counts_append counts_startup counts_run_workers)
  next
    case False
    then show ?thesis
      using assms by (simp add: main_def Let_def counts_append counts_startup calloc_sizes_def [of "[_]"])
  qed
  show "wait_counts (fst (main os argv))
      = [num_threads_of (requested argv) (num_cpus_of (dwNumberOfProcessors os))]" if "calloc_ok os"
    by (simp add: main_valid [OF assms that] counts_append counts_startup counts_run_workers)
qed

text \<open>
  Claim C2. Whatever the request (none, zero, negative, too large) and whatever processor
  count the system reports, the clamp of lines 70--72 lies between 1 and the processor
  count \<open>main\<close> uses (the reported one, when that is at least 1): a non-positive
  request gives 1, a request above the processor count gives the processor count, a
  request in range is kept, and no request gives the processor count. And this clamp is
  the count of a run of \<open>main\<close>: in every run with a valid duration, the number of
  handles \<open>main\<close> allocates and, once the allocation succeeds, the number of threads it
  creates and the count it hands to the wait are between 1 and the processor count, are 1
  when \<open>argv[2]\<close> reads as zero or negative, the processor count when \<open>argv[2]\<close>
  exceeds it or is absent, and the value of \<open>argv[2]\<close> otherwise.
\<close>

theorem effective_thread_count_in_range:
  "1 \<le> sint (num_threads_of req (num_cpus_of dw))
   \<and> sint (num_threads_of req (num_cpus_of dw)) \<le> sint (num_cpus_of dw)
   \<and> (1 \<le> sint dw \<longrightarrow> num_cpus_of dw = dw)
   \<and> (sint r \<le> 0 \<longrightarrow> num_threads_of (Some r) (num_cpus_of dw) = 1)
   \<and> (sint (num_cpus_of dw) < sint r \<longrightarrow> num_threads_of (Some r) (num_cpus_of dw) = num_cpus_of dw)
   \<and> (0 < sint r \<and> sint r \<le> sint (num_cpus_of dw) \<longrightarrow> num_threads_of (Some r) (num_cpus_of dw) = r)
   \<and> num_threads_of None (num_cpus_of dw) = num_cpus_of dw
   \<and> (2 \<le> length argv \<and> 0 < sint (atoi (argv ! 1)) \<longrightarrow>
        calloc_sizes (fst (main os argv))
          = [nat (sint (num_threads_of (requested argv) (num_cpus_of (dwNumberOfProcessors os))))]
        \<and> 1 \<le> sint (num_threads_of (requested argv) (num_cpus_of (dwNumberOfProcessors os)))
        \<and> sint (num_threads_of (requested argv) (num_cpus_of (dwNumberOfProcessors os)))
            \<le> sint (num_cpus_of (dwNumberOfProcessors os))
        \<and> (calloc_ok os \<longrightarrow>
              wait_counts (fst (main os argv))
                = [num_threads_of (requested argv) (num_cpus_of (dwNumberOfProcessors os))]
              \<and> int (length (thread_params (fst (main os argv))))
                = sint (num_threads_of (requested argv) (num_cpus_of (dwNumberOfProcessors os))))
        \<and> (length argv < 3 \<longrightarrow>
              calloc_sizes (fst (main os argv)) = [nat (sint (num_cpus_of (dwNumberOfProcessors os)))]
              \<and> (calloc_ok os \<longrightarrow>
                    wait_counts (fst (main os argv)) = [num_cpus_of (dwNumberOfProcessors os)]))
        \<and> (3 \<le> length argv \<and> sint (atoi (argv ! 2)) \<le> 0 \<longrightarrow>
              calloc_sizes (fst (main os argv)) = [1]
              \<and> (calloc_ok os \<longrightarrow> wait_counts (fst (main os argv)) = [1]))
        \<and> (3 \<le> length argv \<and> sint (num_cpus_of (dwNumberOfProcessors os)) < sint (atoi (argv ! 2)) \<longrightarrow>
              calloc_sizes (fst (main os argv)) = [nat (sint (num_cpus_of (dwNumberOfProcessors os)))]
              \<and> (calloc_ok os \<longrightarrow>
                    wait_counts (fst (main os argv)) = [num_cpus_of (dwNumberOfProcessors os)]))
        \<and> (3 \<le> length argv \<and> 0 < sint (atoi (argv ! 2))
              \<and> sint (atoi (argv ! 2)) \<le> sint (num_cpus_of (dwNumberOfProcessors os)) \<longrightarrow>
              calloc_sizes (fst (main os argv)) = [nat (sint (atoi (argv ! 2)))]
              \<and> (calloc_ok os \<longrightarrow> wait_counts (fst (main os argv)) = [atoi (argv ! 2)])))"
proof -
  have ge: "1 \<le> sint (num_cpus_of dw)"
    by (rule num_cpus_of_ge1)
  have range: "1 \<le> sint (num_threads_of req (num_cpus_of dw))
      \<and> sint (num_threads_of req (num_cpus_of dw)) \<le> sint (num_cpus_of dw)"
    by (rule num_threads_of_range)
  have same: "1 \<le> sint dw \<longrightarrow> num_cpus_of dw = dw"
    by (simp add: num_cpus_of_def)
  have low: "sint r \<le> 0 \<Longrightarrow> num_threads_of (Some r) (num_cpus_of dw) = 1" for r dw
    using num_cpus_of_ge1 [of dw] by (auto simp: num_threads_of_def Let_def)
  have high: "sint (num_cpus_of dw) < sint r \<Longrightarrow> num_threads_of (Some r) (num_cpus_of dw) = num_cpus_of dw"
    for r dw
    using num_cpus_of_ge1 [of dw] by (auto simp: num_threads_of_def Let_def)
  have mid: "0 < sint r \<and> sint r \<le> sint (num_cpus_of dw) \<Longrightarrow> num_threads_of (Some r) (num_cpus_of dw) = r"
    for r dw
    by (auto simp: num_threads_of_def Let_def)
  have none: "num_threads_of None (num_cpus_of dw) = num_cpus_of dw" for dw
    using num_cpus_of_ge1 [of dw] by (auto simp: num_threads_of_def Let_def)
  let ?c = "num_cpus_of (dwNumberOfProcessors os)"
  let ?t = "num_threads_of (requested argv) ?c"
  have run: "calloc_sizes (fst (main os argv)) = [nat (sint ?t)]
      \<and> 1 \<le> sint ?t \<and> sint ?t \<le> sint ?c
      \<and> (calloc_ok os \<longrightarrow>
            wait_counts (fst (main os argv)) = [?t]
            \<and> int (length (thread_params (fst (main os argv)))) = sint ?t)
      \<and> (length argv < 3 \<longrightarrow>
            calloc_sizes (fst (main os argv)) = [nat (sint ?c)]
            \<and> (calloc_ok os \<longrightarrow> wait_counts (fst (main os argv)) = [?c]))
      \<and> (3 \<le> length argv \<and> sint (atoi (argv ! 2)) \<le> 0 \<longrightarrow>
            calloc_sizes (fst (main os argv)) = [1]
            \<and> (calloc_ok os \<longrightarrow> wait_counts (fst (main os argv)) = [1]))
      \<and> (3 \<le> length argv \<and> sint ?c < sint (atoi (argv ! 2)) \<longrightarrow>
            calloc_sizes (fst (main os argv)) = [nat (sint ?c)]
            \<and> (calloc_ok os \<longrightarrow> wait_counts (fst (main os argv)) = [?c]))
      \<and> (3 \<le> length argv \<and> 0 < sint (atoi (argv ! 2)) \<and> sint (atoi (argv ! 2)) \<le> sint ?c \<longrightarrow>
            calloc_sizes (fst (main os argv)) = [nat (sint (atoi (argv ! 2)))]
            \<and> (calloc_ok os \<longrightarrow> wait_counts (fst (main os argv)) = [atoi (argv ! 2)]))"
    if valid: "2 \<le> length argv \<and> 0 < sint (atoi (argv ! 1))"
  proof -
    have v1: "2 \<le> length argv" and v2: "0 < sint (atoi (argv ! 1))"
      using valid by simp_all
    have cs: "calloc_sizes (fst (main os argv)) = [nat (sint ?t)]"
      using v1 v2 by (rule main_counts(1))
    have wc: "wait_counts (fst (main os argv)) = [?t]" if "calloc_ok os"
      using v1 v2 that by (rule main_counts(2))
    have rg: "1 \<le> sint ?t \<and> sint ?t \<le> sint ?c"
      by (rule num_threads_of_range)
    have len: "int (length (thread_params (fst (main os argv)))) = sint ?t" if "calloc_ok os"
      using rg by (simp add: main_thread_params [OF v1 v2 that])
    have t_none: "?t = ?c" if "length argv < 3"
      using that none [of "dwNumberOfProcessors os"] by (simp add: requested_def)
    have t_low: "?t = 1" if "3 \<le> length argv \<and> sint (atoi (argv ! 2)) \<le> 0"
      using that low [of "atoi (argv ! 2)" "dwNumberOfProcessors os"] by (simp add: requested_def)
    have t_high: "?t = ?c" if "3 \<le> length argv \<and> sint ?c < sint (atoi (argv ! 2))"
      using that high [of "dwNumberOfProcessors os" "atoi (argv ! 2)"] by (simp add: requested_def)
    have t_mid: "?t = atoi (argv ! 2)"
      if "3 \<le> length argv \<and> 0 < sint (atoi (argv ! 2)) \<and> sint (atoi (argv ! 2)) \<le> sint ?c"
      using that mid [of "atoi (argv ! 2)" "dwNumberOfProcessors os"] by (simp add: requested_def)
    have c_none: "calloc_sizes (fst (main os argv)) = [nat (sint ?c)]
        \<and> (calloc_ok os \<longrightarrow> wait_counts (fst (main os argv)) = [?c])" if "length argv < 3"
      using cs wc unfolding t_none [OF that] by simp
    have c_low: "calloc_sizes (fst (main os argv)) = [1]
        \<and> (calloc_ok os \<longrightarrow> wait_counts (fst (main os argv)) = [1])"
      if "3 \<le> length argv \<and> sint (atoi (argv ! 2)) \<le> 0"
      using cs wc unfolding t_low [OF that] by simp
    have c_high: "calloc_sizes (fst (main os argv)) = [nat (sint ?c)]
        \<and> (calloc_ok os \<longrightarrow> wait_counts (fst (main os argv)) = [?c])"
      if "3 \<le> length argv \<and> sint ?c < sint (atoi (argv ! 2))"
      using cs wc unfolding t_high [OF that] by simp
    have c_mid: "calloc_sizes (fst (main os argv)) = [nat (sint (atoi (argv ! 2)))]
        \<and> (calloc_ok os \<longrightarrow> wait_counts (fst (main os argv)) = [atoi (argv ! 2)])"
      if "3 \<le> length argv \<and> 0 < sint (atoi (argv ! 2)) \<and> sint (atoi (argv ! 2)) \<le> sint ?c"
      using cs wc unfolding t_mid [OF that] by simp
    from cs rg wc len c_none c_low c_high c_mid show ?thesis
      by blast
  qed
  from range same low [of r dw] high [of dw r] mid [of r dw] none [of dw] run show ?thesis
    by blast
qed

theorem effective_thread_count_witness:
  "1 \<le> sint (8 :: DWORD) \<and> num_cpus_of 8 = 8
   \<and> sint (num_cpus_of 8) < sint (99 :: c_int) \<and> num_threads_of (Some 99) (num_cpus_of 8) = 8
   \<and> sint (- 5 :: c_int) \<le> 0 \<and> num_threads_of (Some (- 5)) (num_cpus_of 8) = 1
   \<and> 0 < sint (3 :: c_int) \<and> sint (3 :: c_int) \<le> sint (num_cpus_of 8)
   \<and> num_threads_of (Some 3) (num_cpus_of 8) = 3
   \<and> num_threads_of None (num_cpus_of 8) = 8
   \<and> calloc_ok eight_cpu_os
   \<and> 2 \<le> length [''cpu_stress'', ''5''] \<and> 0 < sint (atoi ([''cpu_stress'', ''5''] ! 1))
   \<and> length [''cpu_stress'', ''5''] < 3
   \<and> calloc_sizes (fst (main eight_cpu_os [''cpu_stress'', ''5''])) = [8]
   \<and> wait_counts (fst (main eight_cpu_os [''cpu_stress'', ''5''])) = [8]
   \<and> 2 \<le> length [''cpu_stress'', ''5'', ''-5''] \<and> 0 < sint (atoi ([''cpu_stress'', ''5'', ''-5''] ! 1))
   \<and> 3 \<le> length [''cpu_stress'', ''5'', ''-5''] \<and> sint (atoi ([''cpu_stress'', ''5'', ''-5''] ! 2)) \<le> 0
   \<and> calloc_sizes (fst (main eight_cpu_os [''cpu_stress'', ''5'', ''-5''])) = [1]
   \<and> wait_counts (fst (main eight_cpu_os [''cpu_stress'', ''5'', ''-5''])) = [1]
   \<and> 2 \<le> length [''cpu_stress'', ''5'', ''99''] \<and> 0 < sint (atoi ([''cpu_stress'', ''5'', ''99''] ! 1))
   \<and> 3 \<le> length [''cpu_stress'', ''5'', ''99'']
   \<and> sint (num_cpus_of (dwNumberOfProcessors eight_cpu_os)) < sint (atoi ([''cpu_stress'', ''5'', ''99''] ! 2))
   \<and> calloc_sizes (fst (main eight_cpu_os [''cpu_stress'', ''5'', ''99''])) = [8]
   \<and> wait_counts (fst (main eight_cpu_os [''cpu_stress'', ''5'', ''99''])) = [8]
   \<and> 2 \<le> length [''cpu_stress'', ''5'', ''3''] \<and> 0 < sint (atoi ([''cpu_stress'', ''5'', ''3''] ! 1))
   \<and> 3 \<le> length [''cpu_stress'', ''5'', ''3''] \<and> 0 < sint (atoi ([''cpu_stress'', ''5'', ''3''] ! 2))
   \<and> sint (atoi ([''cpu_stress'', ''5'', ''3''] ! 2)) \<le> sint (num_cpus_of (dwNumberOfProcessors eight_cpu_os))
   \<and> calloc_sizes (fst (main eight_cpu_os [''cpu_stress'', ''5'', ''3''])) = [3]
   \<and> wait_counts (fst (main eight_cpu_os [''cpu_stress'', ''5'', ''3''])) = [3]"
proof -
  have a: "1 \<le> sint (8 :: DWORD)" by simp
  have c: "num_cpus_of 8 = 8" by (simp add: num_cpus_of_def)
  have b: "sint (num_cpus_of 8) < sint (99 :: c_int)" by (simp add: c)
  have d: "sint (- 5 :: c_int) \<le> 0" by simp
  have e: "0 < sint (3 :: c_int) \<and> sint (3 :: c_int) \<le> sint (num_cpus_of 8)" by (simp add: c)
  have ok: "calloc_ok eight_cpu_os" by (simp add: eight_cpu_os_def)
  have cpus: "num_cpus_of (dwNumberOfProcessors eight_cpu_os) = 8"
    by (simp add: eight_cpu_os_def num_cpus_of_def)
  have eight: "nat (sint (8 :: c_int)) = 8" by simp
  have none: "2 \<le> length [''cpu_stress'', ''5''] \<and> 0 < sint (atoi ([''cpu_stress'', ''5''] ! 1))"
    and none': "length [''cpu_stress'', ''5''] < 3"
    by code_simp+
  have low: "2 \<le> length [''cpu_stress'', ''5'', ''-5''] \<and> 0 < sint (atoi ([''cpu_stress'', ''5'', ''-5''] ! 1))"
    and low': "3 \<le> length [''cpu_stress'', ''5'', ''-5''] \<and> sint (atoi ([''cpu_stress'', ''5'', ''-5''] ! 2)) \<le> 0"
    by code_simp+
  have high: "2 \<le> length [''cpu_stress'', ''5'', ''99''] \<and> 0 < sint (atoi ([''cpu_stress'', ''5'', ''99''] ! 1))"
    and high': "3 \<le> length [''cpu_stress'', ''5'', ''99'']
      \<and> sint (num_cpus_of (dwNumberOfProcessors eight_cpu_os)) < sint (atoi ([''cpu_stress'', ''5'', ''99''] ! 2))"
    unfolding cpus by code_simp+
  have mid: "2 \<le> length [''cpu_stress'', ''5'', ''3''] \<and> 0 < sint (atoi ([''cpu_stress'', ''5'', ''3''] ! 1))"
    and mid': "3 \<le> length [''cpu_stress'', ''5'', ''3''] \<and> 0 < sint (atoi ([''cpu_stress'', ''5'', ''3''] ! 2))
      \<and> sint (atoi ([''cpu_stress'', ''5'', ''3''] ! 2)) \<le> sint (num_cpus_of (dwNumberOfProcessors eight_cpu_os))"
    unfolding cpus by code_simp+
  have three: "atoi ([''cpu_stress'', ''5'', ''3''] ! 2) = 3" and three': "nat (sint (3 :: c_int)) = 3"
    by code_simp+
  have clamp: "num_threads_of (Some 99) (num_cpus_of 8) = 8
      \<and> num_threads_of (Some (- 5)) (num_cpus_of 8) = 1
      \<and> num_threads_of (Some 3) (num_cpus_of 8) = 3
      \<and> num_threads_of None (num_cpus_of 8) = 8"
    using effective_thread_count_in_range [where req = "Some 99" and dw = 8 and r = 99]
      effective_thread_count_in_range [where req = "Some (- 5)" and dw = 8 and r = "- 5"]
      effective_thread_count_in_range [where req = "Some 3" and dw = 8 and r = 3]
      a b d e c
    by metis
  have r1: "calloc_sizes (fst (main eight_cpu_os [''cpu_stress'', ''5''])) = [nat (sint (8 :: c_int))]
      \<and> wait_counts (fst (main eight_cpu_os [''cpu_stress'', ''5''])) = [8]"
    using effective_thread_count_in_range [where os = eight_cpu_os and argv = "[''cpu_stress'', ''5'']"]
      none none' ok
    unfolding cpus by blast
  have r2: "calloc_sizes (fst (main eight_cpu_os [''cpu_stress'', ''5'', ''-5''])) = [1]
      \<and> wait_counts (fst (main eight_cpu_os [''cpu_stress'', ''5'', ''-5''])) = [1]"
    using effective_thread_count_in_range [where os = eight_cpu_os and argv = "[''cpu_stress'', ''5'', ''-5'']"]
      low low' ok
    by blast
  have r3: "calloc_sizes (fst (main eight_cpu_os [''cpu_stress'', ''5'', ''99''])) = [nat (sint (8 :: c_int))]
      \<and> wait_counts (fst (main eight_cpu_os [''cpu_stress'', ''5'', ''99''])) = [8]"
    using effective_thread_count_in_range [where os = eight_cpu_os and argv = "[''cpu_stress'', ''5'', ''99'']"]
      high high' ok
    unfolding cpus by blast
  have r4: "calloc_sizes (fst (main eight_cpu_os [''cpu_stress'', ''5'', ''3'']))
        = [nat (sint (atoi ([''cpu_stress'', ''5'', ''3''] ! 2)))]
      \<and> wait_counts (fst (main eight_cpu_os [''cpu_stress'', ''5'', ''3''])) = [atoi ([''cpu_stress'', ''5'', ''3''] ! 2)]"
    using effective_thread_count_in_range [where os = eight_cpu_os and argv = "[''cpu_stress'', ''5'', ''3'']"]
      mid mid' ok
    by blast
  show ?thesis
    using a b c d e ok none none' low low' high high' mid mid' clamp
      r1 [unfolded eight] r2 r3 [unfolded eight] r4 [unfolded three three']
    by simp
qed

section \<open>The argument checks of \<open>main\<close>\<close>

text \<open>
  Claim C5, as the code has it. With no duration argument \<open>main\<close> prints the usage
  line to standard error; with a duration that \<open>atoi\<close> reads as zero or negative it
  prints \<open>Duracao invalida\<close> to standard error instead. In both cases that one line is
  all it does: nothing goes to standard output, no thread is created, and the exit status
  is \<open>EXIT_FAILURE\<close>, which is not \<open>EXIT_SUCCESS\<close>.
\<close>

theorem invalid_duration_fails_before_spawn:
  "(length argv < 2 \<longrightarrow>
      main os argv = ([Fprintf_stderr (usage_message (program_name argv))], EXIT_FAILURE))
   \<and> (2 \<le> length argv \<and> sint (atoi (argv ! 1)) \<le> 0 \<longrightarrow>
      main os argv = ([Fprintf_stderr ''Duracao invalida\<newline>''], EXIT_FAILURE))
   \<and> (length argv < 2 \<or> sint (atoi (argv ! 1)) \<le> 0 \<longrightarrow>
      snd (main os argv) = EXIT_FAILURE \<and> EXIT_FAILURE \<noteq> EXIT_SUCCESS
      \<and> length (stderr_of (fst (main os argv))) = 1 \<and> stdout_of (fst (main os argv)) = []
      \<and> thread_params (fst (main os argv)) = [])"
  by (auto simp: main_def Let_def stderr_of_def stdout_of_def thread_params_def
        EXIT_FAILURE_def EXIT_SUCCESS_def)

theorem invalid_duration_witness:
  "length [''cpu_stress''] < 2
   \<and> main example_os [''cpu_stress'']
       = ([Fprintf_stderr ''Uso: cpu_stress <duracao_em_segundos> [num_threads]\<newline>''], 1)
   \<and> 2 \<le> length [''cpu_stress'', ''-3''] \<and> sint (atoi ([''cpu_stress'', ''-3''] ! 1)) \<le> 0
   \<and> main example_os [''cpu_stress'', ''-3''] = ([Fprintf_stderr ''Duracao invalida\<newline>''], 1)
   \<and> thread_params (fst (main example_os [''cpu_stress'', ''-3''])) = []"
proof -
  have a: "length [''cpu_stress''] < 2" by simp
  have b: "2 \<le> length [''cpu_stress'', ''-3'']" by simp
  have c: "sint (atoi ([''cpu_stress'', ''-3''] ! 1)) \<le> 0" by code_simp
  have u: "usage_message (program_name [''cpu_stress''])
      = ''Uso: cpu_stress <duracao_em_segundos> [num_threads]\<newline>''"
    by (simp add: usage_message_def program_name_def)
  show ?thesis
    using invalid_duration_fails_before_spawn [of "[''cpu_stress'']" example_os]
      invalid_duration_fails_before_spawn [of "[''cpu_stress'', ''-3'']" example_os] a b c
    unfolding u EXIT_FAILURE_def by (simp add: thread_params_def)
qed

text \<open>
  The duration \<open>0\<close> is not positive, and what goes to standard error is the line
  \<open>Duracao invalida\<close>, not the usage line.
\<close>

theorem nonpositive_duration_prints_no_usage:
  "sint (atoi ''0'') \<le> 0
   \<and> stderr_of (fst (main example_os [''cpu_stress'', ''0''])) = [''Duracao invalida\<newline>'']
   \<and> stderr_of (fst (main example_os [''cpu_stress'', ''0''])) \<noteq> [usage_message ''cpu_stress'']"
  by code_simp

text \<open>
  Claim C10. When the second argument reads as 0 (as every non-numeric one does) and the
  duration is valid, the thread count is 1: once the allocation succeeds, exactly one
  \<open>CreateThread\<close> is made, with index 0, the run ends with \<open>EXIT_SUCCESS\<close>, and
  standard output holds the banner for one thread and the closing line; when the system
  calls succeed nothing at all is written to standard error. When the first argument reads
  as 0, \<open>main\<close> prints \<open>Duracao invalida\<close> and exits with \<open>EXIT_FAILURE\<close>.
\<close>

theorem non_numeric_arguments:
  assumes "3 \<le> length argv" and "0 < sint (atoi (argv ! 1))" and "atoi (argv ! 2) = 0"
  shows "num_threads_of (requested argv) (num_cpus_of (dwNumberOfProcessors os)) = 1
    \<and> (calloc_ok os \<longrightarrow>
          thread_params (fst (main os argv)) = [0]
          \<and> snd (main os argv) = EXIT_SUCCESS
          \<and> stdout_of (fst (main os argv))
              = [banner (atoi (argv ! 1)) 1 (num_cpus_of (dwNumberOfProcessors os)), ''Finalizado.\<newline>''])
    \<and> (calloc_ok os \<and> handler_registered os \<and> thread_handle os 0 \<noteq> NULL \<longrightarrow>
          stderr_of (fst (main os argv)) = [])
    \<and> (2 \<le> length argv' \<and> atoi (argv' ! 1) = 0 \<longrightarrow>
          main os argv' = ([Fprintf_stderr ''Duracao invalida\<newline>''], EXIT_FAILURE)
          \<and> EXIT_FAILURE \<noteq> EXIT_SUCCESS)"
proof -
  have one: "num_threads_of (requested argv) (num_cpus_of (dwNumberOfProcessors os)) = 1"
    using assms num_cpus_of_ge1 [of "dwNumberOfProcessors os"]
    by (auto simp: requested_def num_threads_of_def Let_def)
  have m: "main os argv
      = (startup os (atoi (argv ! 1)) 1 (num_cpus_of (dwNumberOfProcessors os))
           @ run_workers os (atoi (argv ! 1)) 1, EXIT_SUCCESS)" if "calloc_ok os"
    using main_valid [of argv os] assms that one by simp
  have ok: "thread_params (fst (main os argv)) = [0]
      \<and> snd (main os argv) = EXIT_SUCCESS
      \<and> stdout_of (fst (main os argv))
          = [banner (atoi (argv ! 1)) 1 (num_cpus_of (dwNumberOfProcessors os)), ''Finalizado.\<newline>'']"
    if "calloc_ok os"
    unfolding m [OF that] run_workers_one startup_def
    by (simp add: thread_params_def stdout_of_def)
  have quiet: "stderr_of (fst (main os argv)) = []"
    if "calloc_ok os" and "handler_registered os" and "thread_handle os 0 \<noteq> NULL"
    unfolding m [OF that(1)] run_workers_one startup_def
    using that by (simp add: stderr_of_def)
  have bad: "main os argv' = ([Fprintf_stderr ''Duracao invalida\<newline>''], EXIT_FAILURE)
      \<and> EXIT_FAILURE \<noteq> EXIT_SUCCESS"
    if "2 \<le> length argv'" and "atoi (argv' ! 1) = 0"
    using that by (simp add: main_def EXIT_FAILURE_def EXIT_SUCCESS_def)
  from one ok quiet bad show ?thesis by blast
qed

theorem non_numeric_arguments_witness:
  "3 \<le> length [''cpu_stress'', ''5'', ''abc''] \<and> 0 < sint (atoi ([''cpu_stress'', ''5'', ''abc''] ! 1))
   \<and> atoi ([''cpu_stress'', ''5'', ''abc''] ! 2) = 0
   \<and> calloc_ok example_os \<and> handler_registered example_os \<and> thread_handle example_os 0 \<noteq> NULL
   \<and> 2 \<le> length [''cpu_stress'', ''abc''] \<and> atoi ([''cpu_stress'', ''abc''] ! 1) = 0
   \<and> thread_params (fst (main example_os [''cpu_stress'', ''5'', ''abc''])) = [0]
   \<and> stderr_of (fst (main example_os [''cpu_stress'', ''5'', ''abc''])) = []
   \<and> snd (main example_os [''cpu_stress'', ''5'', ''abc'']) = EXIT_SUCCESS
   \<and> main example_os [''cpu_stress'', ''abc''] = ([Fprintf_stderr ''Duracao invalida\<newline>''], EXIT_FAILURE)"
proof -
  have a: "3 \<le> length [''cpu_stress'', ''5'', ''abc'']" by simp
  have b: "0 < sint (atoi ([''cpu_stress'', ''5'', ''abc''] ! 1))" by code_simp
  have c: "atoi ([''cpu_stress'', ''5'', ''abc''] ! 2) = 0" by code_simp
  have d: "calloc_ok example_os \<and> handler_registered example_os \<and> thread_handle example_os 0 \<noteq> NULL"
    by (simp add: example_os_def NULL_def)
  have e: "2 \<le> length [''cpu_stress'', ''abc''] \<and> atoi ([''cpu_stress'', ''abc''] ! 1) = 0"
    by code_simp
  show ?thesis
    using non_numeric_arguments [OF a b c, of example_os "[''cpu_stress'', ''abc'']"] a b c d e
    by blast
qed

section \<open>The spawn loop and the join\<close>

lemma affinity_mask_of_index: "k < 64 \<Longrightarrow> affinity_mask (word_of_nat k) = push_bit k 1"
proof -
  assume k: "k < 64"
  then have "k < 2 ^ 32"
    by simp
  then have "unat (word_of_nat k :: c_int) = k"
    by (simp add: unsigned_of_nat take_bit_nat_eq_self)
  with k show ?thesis
    by (simp add: affinity_mask_def)
qed

lemma scast_word_of_nat: "k < 2 ^ 31 \<Longrightarrow> scast (word_of_nat k :: c_int) = (word_of_nat k :: DWORD_PTR)"
proof -
  assume small: "k < 2 ^ 31"
  have "sint (word_of_nat k :: c_int) = int k"
    using small by (rule sint_word_of_nat)
  then have "(scast (word_of_nat k :: c_int) :: DWORD_PTR) = word_of_int (int k)"
    unfolding scast_eq by (rule arg_cong)
  then show ?thesis
    by simp
qed

text \<open>
  Claim C8. In every run the processor indices handed to the workers are all different.
  In a run that reaches the spawn loop the parameters passed to \<open>CreateThread\<close> are,
  in spawn order, exactly 0, 1, ... up to the thread count minus one, one per call, and
  each worker reads its parameter back as exactly that index; there are as many as the
  thread count, and no more than processors. With at most 64 threads (the width of the
  mask) worker \<open>k\<close> computes the mask with bit \<open>k\<close> alone, so the masks are
  different too.
\<close>

theorem spawn_indices_in_order_and_distinct:
  "distinct (map cpu_index_of (thread_params (fst (main os argv))))
   \<and> (2 \<le> length argv \<and> 0 < sint (atoi (argv ! 1)) \<and> calloc_ok os \<longrightarrow>
        thread_params (fst (main os argv))
           = map word_of_nat
               [0 ..< nat (sint (num_threads_of (requested argv) (num_cpus_of (dwNumberOfProcessors os))))]
        \<and> map cpu_index_of (thread_params (fst (main os argv)))
           = map word_of_nat
               [0 ..< nat (sint (num_threads_of (requested argv) (num_cpus_of (dwNumberOfProcessors os))))]
        \<and> map (\<lambda>p. nat (sint (cpu_index_of p))) (thread_params (fst (main os argv)))
           = [0 ..< nat (sint (num_threads_of (requested argv) (num_cpus_of (dwNumberOfProcessors os))))]
        \<and> length (thread_params (fst (main os argv)))
           = nat (sint (num_threads_of (requested argv) (num_cpus_of (dwNumberOfProcessors os))))
        \<and> int (length (thread_params (fst (main os argv))))
           = sint (num_threads_of (requested argv) (num_cpus_of (dwNumberOfProcessors os)))
        \<and> nat (sint (num_threads_of (requested argv) (num_cpus_of (dwNumberOfProcessors os))))
           \<le> nat (sint (num_cpus_of (dwNumberOfProcessors os)))
        \<and> (nat (sint (num_threads_of (requested argv) (num_cpus_of (dwNumberOfProcessors os)))) \<le> 64
            \<longrightarrow> map (\<lambda>p. affinity_mask (cpu_index_of p)) (thread_params (fst (main os argv)))
                  = map (\<lambda>k. push_bit k 1)
                      [0 ..< nat (sint (num_threads_of (requested argv) (num_cpus_of (dwNumberOfProcessors os))))]
                \<and> distinct (map (\<lambda>p. affinity_mask (cpu_index_of p)) (thread_params (fst (main os argv))))))"
proof (cases "2 \<le> length argv \<and> 0 < sint (atoi (argv ! 1)) \<and> calloc_ok os")
  case False
  then have "thread_params (fst (main os argv)) = []"
    by (rule main_no_spawn)
  then have "distinct (map cpu_index_of (thread_params (fst (main os argv))))"
    by simp
  with False show ?thesis
    by blast
next
  case True
  let ?t = "num_threads_of (requested argv) (num_cpus_of (dwNumberOfProcessors os))"
  let ?n = "nat (sint ?t)"
  let ?ps = "thread_params (fst (main os argv))"
  have ps: "?ps = map (\<lambda>k. scast (word_of_nat k :: c_int)) [0 ..< ?n]"
    using True by (intro main_thread_params) simp_all
  have lt: "k < 2 ^ 31" if "k < ?n" for k
    using that sint_lt_2p31 [of ?t] by simp
  have small: "nat (sint (word_of_nat k :: c_int)) = k" if "k < ?n" for k
    using lt [OF that] by (simp add: sint_word_of_nat)
  have sc: "scast (word_of_nat k :: c_int) = (word_of_nat k :: DWORD_PTR)" if "k < ?n" for k
    using lt [OF that] by (rule scast_word_of_nat)
  have params: "?ps = map word_of_nat [0 ..< ?n]"
    unfolding ps by (rule nth_equalityI) (simp_all add: sc)
  have exact: "map cpu_index_of ?ps = map word_of_nat [0 ..< ?n]"
    unfolding ps by (rule nth_equalityI) (simp_all add: cpu_index_roundtrip)
  have idx: "map (\<lambda>p. nat (sint (cpu_index_of p))) ?ps = [0 ..< ?n]"
    unfolding ps by (rule nth_equalityI) (simp_all add: cpu_index_roundtrip small)
  have len: "length ?ps = ?n"
    unfolding ps by simp
  have range: "1 \<le> sint ?t \<and> sint ?t \<le> sint (num_cpus_of (dwNumberOfProcessors os))"
    by (rule num_threads_of_range)
  have ilen: "int (length ?ps) = sint ?t"
    using len range by simp
  have "distinct (map (\<lambda>c. nat (sint c)) (map cpu_index_of ?ps))"
    using idx by (simp add: comp_def)
  then have dist: "distinct (map cpu_index_of ?ps)"
    by (auto simp: distinct_map intro: inj_on_imageI2)
  have le: "?n \<le> nat (sint (num_cpus_of (dwNumberOfProcessors os)))"
    using range by linarith
  have mask: "map (\<lambda>p. affinity_mask (cpu_index_of p)) ?ps = map (\<lambda>k. push_bit k 1) [0 ..< ?n]
      \<and> distinct (map (\<lambda>p. affinity_mask (cpu_index_of p)) ?ps)" if n64: "?n \<le> 64"
  proof -
    have eq: "map (\<lambda>p. affinity_mask (cpu_index_of p)) ?ps = map (\<lambda>k. push_bit k (1::DWORD_PTR)) [0 ..< ?n]"
      unfolding ps using n64
      by (intro nth_equalityI) (simp_all add: cpu_index_roundtrip affinity_mask_of_index)
    have "inj_on (\<lambda>k. push_bit k (1::DWORD_PTR)) (set [0 ..< ?n])"
      using n64 by (auto intro!: inj_onI affinity_mask_inj)
    then have "distinct (map (\<lambda>k. push_bit k (1::DWORD_PTR)) [0 ..< ?n])"
      by (simp add: distinct_map)
    with eq show ?thesis
      by simp
  qed
  from params exact idx len ilen dist le mask show ?thesis by blast
qed

theorem spawn_indices_witness:
  "2 \<le> length [''cpu_stress'', ''1'', ''2''] \<and> 0 < sint (atoi ([''cpu_stress'', ''1'', ''2''] ! 1))
   \<and> calloc_ok example_os
   \<and> nat (sint (num_threads_of (requested [''cpu_stress'', ''1'', ''2''])
              (num_cpus_of (dwNumberOfProcessors example_os)))) \<le> 64
   \<and> thread_params (fst (main example_os [''cpu_stress'', ''1'', ''2''])) = [0, 1]
   \<and> map cpu_index_of (thread_params (fst (main example_os [''cpu_stress'', ''1'', ''2'']))) = [0, 1]
   \<and> map (\<lambda>p. nat (sint (cpu_index_of p))) (thread_params (fst (main example_os [''cpu_stress'', ''1'', ''2''])))
       = [0, 1]
   \<and> map (\<lambda>p. affinity_mask (cpu_index_of p))
         (thread_params (fst (main example_os [''cpu_stress'', ''1'', ''2'']))) = [1, 2]
   \<and> distinct (map (\<lambda>p. affinity_mask (cpu_index_of p))
         (thread_params (fst (main example_os [''cpu_stress'', ''1'', ''2'']))))"
proof -
  have a: "2 \<le> length [''cpu_stress'', ''1'', ''2'']" by simp
  have b: "0 < sint (atoi ([''cpu_stress'', ''1'', ''2''] ! 1))" by code_simp
  have c: "calloc_ok example_os" by (simp add: example_os_def)
  have n: "nat (sint (num_threads_of (requested [''cpu_stress'', ''1'', ''2''])
              (num_cpus_of (dwNumberOfProcessors example_os)))) = 2"
    by code_simp
  have u: "[0 ..< (2::nat)] = [0, 1]" by (simp add: upt_rec)
  have d: "(2::nat) \<le> 64" by simp
  have w: "map word_of_nat [0, 1::nat] = [0, 1 :: c_int]"
    "map word_of_nat [0, 1::nat] = [0, 1 :: DWORD_PTR]"
    "map (\<lambda>k. push_bit k 1) [0, 1::nat] = [1, 2 :: DWORD_PTR]"
    by simp_all
  show ?thesis
    using spawn_indices_in_order_and_distinct [of example_os "[''cpu_stress'', ''1'', ''2'']"] a b c d
    unfolding n u w by blast
qed

lemma spawned_Cons:
  "spawned (CreateThread p h # evs) = (if h = NULL then [] else [h]) @ spawned evs"
  by (simp add: spawned_def)

lemma spawned_append: "spawned (as @ bs) = spawned as @ spawned bs"
  by (simp add: spawned_def)

lemma spawned_warn: "spawned (if c then [Fprintf_stderr m] else []) = []"
  by (simp add: spawned_def)

lemma spawned_close: "spawned (map CloseHandle hs) = []"
  by (induction hs) (simp_all add: spawned_def)

lemma joined_close: "joined (map CloseHandle hs) = []"
  by (induction hs) (simp_all add: joined_def)

lemma joined_append: "joined (as @ bs) = joined as @ joined bs"
  by (simp add: joined_def)

lemma joined_Cons: "joined (CreateThread p h # evs) = joined evs"
  by (simp add: joined_def)

lemma joined_warn: "joined (if c then [Fprintf_stderr m] else []) = []"
  by (simp add: joined_def)

lemma spawn_loop_spawned:
  "0 \<le> sint i \<Longrightarrow>
   spawned (fst (spawn_loop os n i ths))
     = filter (\<lambda>h. h \<noteq> NULL) (map (thread_handle os) [nat (sint i) ..< nat (sint n)])"
proof (induction os n i ths rule: spawn_loop.induct)
  case (1 os n i ths)
  show ?case
  proof (cases "sint i < sint n")
    case True
    have succ: "sint (i + 1) = sint i + 1"
      using True by (rule sint_succ)
    have IH: "spawned (fst (spawn_loop os n (i + 1) (ths[nat (sint i) := thread_handle os (nat (sint i))])))
      = filter (\<lambda>h. h \<noteq> NULL) (map (thread_handle os) [nat (sint (i + 1)) ..< nat (sint n)])"
      using "1.IH" [OF True refl refl refl] "1.prems" succ by simp
    have upt: "[nat (sint i) ..< nat (sint n)] = nat (sint i) # [nat (sint (i + 1)) ..< nat (sint n)]"
      using True "1.prems" succ by (simp add: upt_conv_Cons nat_add_distrib)
    show ?thesis
      using True IH
      by (subst spawn_loop.simps)
         (simp add: Let_def split_beta spawned_Cons spawned_append spawned_warn upt del: upt_Suc)
  next
    case False
    then show ?thesis
      by (subst spawn_loop.simps) (simp add: spawned_def)
  qed
qed

lemma spawn_loop_joined: "joined (fst (spawn_loop os n i ths)) = []"
proof (induction os n i ths rule: spawn_loop.induct)
  case (1 os n i ths)
  show ?case
  proof (cases "sint i < sint n")
    case True
    have IH: "joined (fst (spawn_loop os n (i + 1) (ths[nat (sint i) := thread_handle os (nat (sint i))]))) = []"
      using "1.IH" [OF True refl refl refl] by simp
    show ?thesis
      using True IH
      by (subst spawn_loop.simps)
         (simp add: Let_def split_beta joined_Cons joined_append joined_warn)
  next
    case False
    then show ?thesis
      by (subst spawn_loop.simps) (simp add: joined_def)
  qed
qed

lemma spawn_loop_threads:
  "0 \<le> sint i \<Longrightarrow> length ths = nat (sint n) \<Longrightarrow>
   snd (spawn_loop os n i ths)
     = take (nat (sint i)) ths @ map (thread_handle os) [nat (sint i) ..< nat (sint n)]"
proof (induction os n i ths rule: spawn_loop.induct)
  case (1 os n i ths)
  show ?case
  proof (cases "sint i < sint n")
    case True
    let ?ths = "ths[nat (sint i) := thread_handle os (nat (sint i))]"
    have succ: "sint (i + 1) = sint i + 1"
      using True by (rule sint_succ)
    have IH: "snd (spawn_loop os n (i + 1) ?ths)
      = take (nat (sint (i + 1))) ?ths @ map (thread_handle os) [nat (sint (i + 1)) ..< nat (sint n)]"
      using "1.IH" [OF True refl refl refl] "1.prems" succ by simp
    have upt: "[nat (sint i) ..< nat (sint n)] = nat (sint i) # [nat (sint (i + 1)) ..< nat (sint n)]"
      using True "1.prems" succ by (simp add: upt_conv_Cons nat_add_distrib)
    have inb: "nat (sint i) < length ths"
      using True "1.prems" by simp
    have tk: "take (nat (sint (i + 1))) ?ths = take (nat (sint i)) ths @ [thread_handle os (nat (sint i))]"
      using inb "1.prems"(1) succ by (simp add: nat_add_distrib take_Suc_conv_app_nth)
    show ?thesis
      using True IH
      by (subst spawn_loop.simps) (simp add: Let_def split_beta upt tk del: upt_Suc)
  next
    case False
    then show ?thesis
      using "1.prems" by (subst spawn_loop.simps) simp
  qed
qed

lemma unat_nonneg: "0 \<le> sint (w::c_int) \<Longrightarrow> unat w = nat (sint w)"
proof -
  assume nonneg: "0 \<le> sint w"
  have "sint w < 2 ^ 32"
    using sint_lt [of w] by simp
  then have "take_bit 32 (sint w) = sint w"
    using nonneg by (simp add: take_bit_int_eq_self)
  moreover have "uint w = take_bit 32 (sint w)"
    using uint_word_of_int_eq [of "sint w", where ?'a = 32] by simp
  ultimately have "uint w = sint w"
    by simp
  then show ?thesis
    by (simp add: unat_eq_nat_uint)
qed

lemma run_workers_all_spawned:
  assumes "1 \<le> sint n" and "nat (sint n) \<le> MAXIMUM_WAIT_OBJECTS"
    and "list_all (\<lambda>i. thread_handle os i \<noteq> NULL) [0 ..< nat (sint n)]"
  shows "spawned (run_workers os d n) = map (thread_handle os) [0 ..< nat (sint n)]"
    and "joined (run_workers os d n) = map (thread_handle os) [0 ..< nat (sint n)]"
proof -
  let ?hs = "map (thread_handle os) [0 ..< nat (sint n)]"
  obtain spawn threads where sl: "spawn_loop os n 0 (replicate (nat (sint n)) NULL) = (spawn, threads)"
    by (cases "spawn_loop os n 0 (replicate (nat (sint n)) NULL)")
  have threads: "threads = ?hs"
    using spawn_loop_threads [of 0 "replicate (nat (sint n)) NULL" n os] sl by simp
  have sp: "spawned spawn = filter (\<lambda>h. h \<noteq> NULL) ?hs"
    using spawn_loop_spawned [of 0 os n "replicate (nat (sint n)) NULL"] sl by simp
  have nonnull: "filter (\<lambda>h. h \<noteq> NULL) ?hs = ?hs"
    using assms(3) by (simp add: list_all_iff)
  have jn: "joined spawn = []"
    using spawn_loop_joined [of os n 0 "replicate (nat (sint n)) NULL"] sl by simp
  have un: "unat n = nat (sint n)"
    using assms(1) by (intro unat_nonneg) simp
  have "NULL \<notin> set ?hs"
    using assms(3) by (auto simp: list_all_iff)
  then have wait: "wait_all n ?hs = WAIT_OBJECT_0"
    using assms(1,2) by (simp add: wait_all_def un)
  have ne: "WAIT_OBJECT_0 \<noteq> WAIT_FAILED"
    by (simp add: WAIT_OBJECT_0_def WAIT_FAILED_def)
  show "spawned (run_workers os d n) = ?hs"
    by (simp add: run_workers_def sl spawned_append sp nonnull close_loop_eq spawned_close
          spawned_def [of "[]"] spawned_def [of "_ # _"])
  show "joined (run_workers os d n) = ?hs"
    using ne
    by (simp add: run_workers_def sl joined_append jn close_loop_eq joined_close threads wait un
          joined_def [of "[]"] joined_def [of "_ # _"])
qed

text \<open>
  When every \<open>CreateThread\<close> succeeds and there are at most \<open>MAXIMUM_WAIT_OBJECTS\<close>
  threads, the wait does cover every worker that was started.
\<close>

lemma every_worker_joined_when_all_spawns_succeed:
  assumes "2 \<le> length argv" and "0 < sint (atoi (argv ! 1))" and "calloc_ok os"
    and "nat (sint (num_threads_of (requested argv) (num_cpus_of (dwNumberOfProcessors os))))
          \<le> MAXIMUM_WAIT_OBJECTS"
    and "list_all (\<lambda>i. thread_handle os i \<noteq> NULL)
          [0 ..< nat (sint (num_threads_of (requested argv) (num_cpus_of (dwNumberOfProcessors os))))]"
  shows "joined (fst (main os argv)) = spawned (fst (main os argv))"
    and "spawned (fst (main os argv))
      = map (thread_handle os)
          [0 ..< nat (sint (num_threads_of (requested argv) (num_cpus_of (dwNumberOfProcessors os))))]"
proof -
  let ?n = "num_threads_of (requested argv) (num_cpus_of (dwNumberOfProcessors os))"
  have ge: "1 \<le> sint ?n"
    using num_threads_of_range [of "requested argv" "dwNumberOfProcessors os"] by simp
  have st: "spawned (startup os d ?n c) = []" "joined (startup os d ?n c) = []" for d c
    by (simp_all add: startup_def spawned_def joined_def)
  note rw = run_workers_all_spawned [OF ge assms(4,5)]
  show "spawned (fst (main os argv)) = map (thread_handle os) [0 ..< nat (sint ?n)]"
    by (simp add: main_valid [OF assms(1,2,3)] spawned_append st rw)
  then show "joined (fst (main os argv)) = spawned (fst (main os argv))"
    by (simp add: main_valid [OF assms(1,2,3)] joined_append st rw)
qed

text \<open>
  Claim C1, at a run where it fails. Two threads are requested on two processors; the
  first \<open>CreateThread\<close> returns handle 100, the second returns \<open>NULL\<close>. The array
  handed to \<open>WaitForMultipleObjects\<close> then holds the null handle, the call fails
  without waiting, and \<open>main\<close> closes handle 100, reports completion and returns
  \<open>EXIT_SUCCESS\<close>: worker 0 was started and never waited for.
\<close>

theorem partial_spawn_failure_skips_join:
  "spawned (fst (main failing_os [''cpu_stress'', ''1'', ''2''])) = [100]
   \<and> joined (fst (main failing_os [''cpu_stress'', ''1'', ''2''])) = []
   \<and> fst (main failing_os [''cpu_stress'', ''1'', ''2''])
      = [Printf ''Estressando CPU por 1 segundos usando 2 threads (de 2 CPUs logicos)\<newline>'',
         SetConsoleCtrlHandler True, Calloc 2, CreateThread 0 100, CreateThread 1 NULL,
         Fprintf_stderr ''Erro ao criar thread 1 (erro 8)\<newline>'',
         Sleep 1000, InterlockedExchange_stop 1,
         WaitForMultipleObjects 2 [100, NULL] WAIT_FAILED, CloseHandle 100, Free,
         Printf ''Finalizado.\<newline>'']
   \<and> snd (main failing_os [''cpu_stress'', ''1'', ''2'']) = EXIT_SUCCESS"
  by code_simp

section \<open>The stop flag under every interleaving\<close>

lemma step_Ctrl: "step env (Ctrl c) s = (if sets_stop (Ctrl c) then s\<lparr>g_stop_flag := 1\<rparr> else s)"
  by (simp add: step_def ConsoleCtrlHandler_def InterlockedExchange_def sets_stop_def)

lemma step_Timeout: "step env Timeout s = s\<lparr>g_stop_flag := 1\<rparr>"
  by (simp add: step_def InterlockedExchange_def)

lemma flag_step_Spawn: "g_stop_flag (step env (Spawn p) s) = g_stop_flag s"
  by (simp add: step_def)

lemma flag_step_Run: "g_stop_flag (step env (Run k) s) = g_stop_flag s"
  by (simp add: step_def split_beta)

lemma flag_step: "g_stop_flag (step env a s) = g_stop_flag s \<or> g_stop_flag (step env a s) = 1"
  by (cases a) (simp_all add: step_Ctrl step_Timeout flag_step_Spawn flag_step_Run)

lemma flag_step_set: "g_stop_flag s = 1 \<Longrightarrow> g_stop_flag (step env a s) = 1"
  using flag_step [of env a s] by auto

lemma flag_step_nonzero: "g_stop_flag s \<noteq> 0 \<Longrightarrow> g_stop_flag (step env a s) \<noteq> 0"
  using flag_step [of env a s] by auto

lemma run_append: "run env (as @ bs) s = run env bs (run env as s)"
  by (induction as arbitrary: s) simp_all

lemma flag_run_set: "g_stop_flag s = 1 \<Longrightarrow> g_stop_flag (run env sched s) = 1"
  by (induction sched arbitrary: s) (simp_all add: flag_step_set)

lemma flag_run_binary:
  "g_stop_flag s = 0 \<or> g_stop_flag s = 1 \<Longrightarrow>
   g_stop_flag (run env sched s) = 0 \<or> g_stop_flag (run env sched s) = 1"
proof (induction sched arbitrary: s)
  case Nil
  then show ?case by simp
next
  case (Cons a sched)
  have "g_stop_flag (step env a s) = 0 \<or> g_stop_flag (step env a s) = 1"
    using Cons.prems flag_step [of env a s] by auto
  then show ?case
    using Cons.IH by simp
qed

lemma check_step_when_set:
  assumes "g_stop_flag s \<noteq> 0" and "k < length (workers s)" and "pc (workers s ! k) = Check"
  shows "pc (workers (step env (Run k) s) ! k) = Returned 0"
  using assms by (simp add: step_def worker_thread_step_def)

text \<open>
  Claim C3. The flag is 0 when the process starts. Every action of every thread leaves
  it as it is or stores 1, so from the start it is 0 or 1 under every schedule, and once
  it is 1 after some schedule it is 1 after every continuation. For the readers: a
  worker that tests the flag at any later point sees it set and returns.
\<close>

theorem stop_flag_monotonic:
  "g_stop_flag (initial :: 'x process) = 0
   \<and> (g_stop_flag (step (env :: 'x worker_env) a s) = g_stop_flag s \<or> g_stop_flag (step env a s) = 1)
   \<and> (g_stop_flag (run env sched initial) = 0 \<or> g_stop_flag (run env sched initial) = 1)
   \<and> (g_stop_flag (run env pre initial) = 1 \<longrightarrow> g_stop_flag (run env (pre @ post) initial) = 1)
   \<and> (g_stop_flag (run env pre initial) = 1
        \<and> k < length (workers (run env (pre @ post) initial))
        \<and> pc (workers (run env (pre @ post) initial) ! k) = Check
      \<longrightarrow> pc (workers (step env (Run k) (run env (pre @ post) initial)) ! k) = Returned 0)"
proof -
  have init: "g_stop_flag (initial :: 'x process) = 0"
    by (simp add: initial_def)
  have writes: "g_stop_flag (step env a s) = g_stop_flag s \<or> g_stop_flag (step env a s) = 1"
    by (rule flag_step)
  have binary: "g_stop_flag (run env sched initial) = 0 \<or> g_stop_flag (run env sched initial) = 1"
    using init by (intro flag_run_binary) simp
  have later: "g_stop_flag (run env (pre @ post) initial) = 1"
    if "g_stop_flag (run env pre initial) = 1"
    using that by (simp add: run_append flag_run_set)
  have reader: "pc (workers (step env (Run k) (run env (pre @ post) initial)) ! k) = Returned 0"
    if "g_stop_flag (run env pre initial) = 1"
      and "k < length (workers (run env (pre @ post) initial))"
      and "pc (workers (run env (pre @ post) initial) ! k) = Check"
    using later [OF that(1)] that(2,3) by (intro check_step_when_set) simp_all
  from init writes binary later reader show ?thesis by blast
qed

theorem stop_flag_monotonic_witness:
  "g_stop_flag (run example_env [Spawn 0, Run 0, Ctrl CTRL_C_EVENT] initial) = 1
   \<and> 0 < length (workers (run example_env ([Spawn 0, Run 0, Ctrl CTRL_C_EVENT] @ [Timeout]) initial))
   \<and> pc (workers (run example_env ([Spawn 0, Run 0, Ctrl CTRL_C_EVENT] @ [Timeout]) initial) ! 0) = Check
   \<and> g_stop_flag (run example_env ([Spawn 0, Run 0, Ctrl CTRL_C_EVENT] @ [Timeout]) initial) = 1
   \<and> pc (workers (step example_env (Run 0)
           (run example_env ([Spawn 0, Run 0, Ctrl CTRL_C_EVENT] @ [Timeout]) initial)) ! 0) = Returned 0"
proof -
  have a: "g_stop_flag (run example_env [Spawn 0, Run 0, Ctrl CTRL_C_EVENT] initial) = 1"
    by code_simp
  have b: "0 < length (workers (run example_env ([Spawn 0, Run 0, Ctrl CTRL_C_EVENT] @ [Timeout]) initial))"
    by code_simp
  have c: "pc (workers (run example_env ([Spawn 0, Run 0, Ctrl CTRL_C_EVENT] @ [Timeout]) initial) ! 0) = Check"
    by code_simp
  show ?thesis
    using stop_flag_monotonic [of example_env _ _ _ "[Spawn 0, Run 0, Ctrl CTRL_C_EVENT]" "[Timeout]" 0] a b c
    by blast
qed

section \<open>The console handler\<close>

text \<open>
  Claim C7. For Ctrl+C, Ctrl+Break, console close and system shutdown the handler
  returns \<open>TRUE\<close> and the process state afterwards is the state before with the flag
  set to 1: the workers and both output streams are as they were. For every other control
  type it returns \<open>FALSE\<close> and the state is unchanged.
\<close>

theorem handler_sets_flag_only:
  "(c = CTRL_C_EVENT \<or> c = CTRL_BREAK_EVENT \<or> c = CTRL_CLOSE_EVENT \<or> c = CTRL_SHUTDOWN_EVENT \<longrightarrow>
      ConsoleCtrlHandler c s = (TRUE, s\<lparr>g_stop_flag := 1\<rparr>)
      \<and> g_stop_flag (snd (ConsoleCtrlHandler c s)) = 1
      \<and> workers (snd (ConsoleCtrlHandler c s)) = workers s
      \<and> out_log (snd (ConsoleCtrlHandler c s)) = out_log s
      \<and> err_log (snd (ConsoleCtrlHandler c s)) = err_log s)
   \<and> (c \<noteq> CTRL_C_EVENT \<and> c \<noteq> CTRL_BREAK_EVENT \<and> c \<noteq> CTRL_CLOSE_EVENT \<and> c \<noteq> CTRL_SHUTDOWN_EVENT \<longrightarrow>
      ConsoleCtrlHandler c s = (FALSE, s))"
  by (simp add: ConsoleCtrlHandler_def InterlockedExchange_def)

theorem handler_sets_flag_only_witness:
  "ConsoleCtrlHandler CTRL_C_EVENT stopping_process = (TRUE, stopping_process\<lparr>g_stop_flag := 1\<rparr>)
   \<and> CTRL_LOGOFF_EVENT \<noteq> CTRL_C_EVENT \<and> CTRL_LOGOFF_EVENT \<noteq> CTRL_BREAK_EVENT
   \<and> CTRL_LOGOFF_EVENT \<noteq> CTRL_CLOSE_EVENT \<and> CTRL_LOGOFF_EVENT \<noteq> CTRL_SHUTDOWN_EVENT
   \<and> ConsoleCtrlHandler CTRL_LOGOFF_EVENT stopping_process = (FALSE, stopping_process)"
proof -
  have a: "CTRL_LOGOFF_EVENT \<noteq> CTRL_C_EVENT \<and> CTRL_LOGOFF_EVENT \<noteq> CTRL_BREAK_EVENT
      \<and> CTRL_LOGOFF_EVENT \<noteq> CTRL_CLOSE_EVENT \<and> CTRL_LOGOFF_EVENT \<noteq> CTRL_SHUTDOWN_EVENT"
    by (simp add: CTRL_LOGOFF_EVENT_def CTRL_C_EVENT_def CTRL_BREAK_EVENT_def CTRL_CLOSE_EVENT_def
          CTRL_SHUTDOWN_EVENT_def)
  show ?thesis
    using handler_sets_flag_only [of CTRL_C_EVENT stopping_process]
      handler_sets_flag_only [of CTRL_LOGOFF_EVENT stopping_process] a
    by blast
qed

section \<open>Storing the flag more than once\<close>

lemma writer_keeps_set_state: "g_stop_flag s = 1 \<Longrightarrow> is_writer a \<Longrightarrow> step env a s = s"
  by (cases a) (auto simp: step_Ctrl step_Timeout is_writer_def)

lemma writers_keep_set_state:
  "g_stop_flag s = 1 \<Longrightarrow> list_all is_writer ws \<Longrightarrow> run env ws s = s"
  by (induction ws) (simp_all add: writer_keeps_set_state)

lemma sets_stop_step: "sets_stop a \<Longrightarrow> step env a s = s\<lparr>g_stop_flag := 1\<rparr>"
  by (cases a) (simp_all add: step_Ctrl step_Timeout, simp_all add: sets_stop_def)

text \<open>
  Claim C9. A writer that finds the flag set leaves the whole process state as it is.
  A store sets the flag to 1, and a second store, by the same writer or the other one,
  changes nothing; the timeout path and the handler reach the same state. So a run in
  which further writers follow the first store, in any number and order, continues from
  the same state as the run with the single store.
\<close>

theorem stop_store_idempotent:
  "(g_stop_flag s = 1 \<and> is_writer a \<longrightarrow> step env a s = s)
   \<and> (sets_stop a \<longrightarrow> g_stop_flag (step env a s) = 1 \<and> step env a (step env a s) = step env a s)
   \<and> (sets_stop a \<and> sets_stop b \<longrightarrow> step env b (step env a s) = step env a s
         \<and> step env a s = step env b s)
   \<and> (sets_stop a \<and> list_all is_writer ws \<longrightarrow>
         g_stop_flag (run env (a # ws) s) = g_stop_flag (run env [a] s)
         \<and> run env (a # ws @ rest) s = run env (a # rest) s)"
proof -
  have one: "step env a s = s" if "g_stop_flag s = 1" and "is_writer a"
    using that by (rule writer_keeps_set_state)
  have st: "step env a s = s\<lparr>g_stop_flag := 1\<rparr>" if "sets_stop a" for a
    using that by (rule sets_stop_step)
  have w: "is_writer a" if "sets_stop a" for a
    using that by (cases a) (simp_all add: sets_stop_def is_writer_def)
  have two: "g_stop_flag (step env a s) = 1 \<and> step env a (step env a s) = step env a s"
    if "sets_stop a"
    using st [OF that] writer_keeps_set_state [of "s\<lparr>g_stop_flag := 1\<rparr>" a env] w [OF that]
    by simp
  have three: "step env b (step env a s) = step env a s \<and> step env a s = step env b s"
    if "sets_stop a" and "sets_stop b"
    using st [OF that(1)] st [OF that(2)]
      writer_keeps_set_state [of "s\<lparr>g_stop_flag := 1\<rparr>" b env] w [OF that(2)]
    by simp
  have many: "g_stop_flag (run env (a # ws) s) = g_stop_flag (run env [a] s)
      \<and> run env (a # ws @ rest) s = run env (a # rest) s"
    if "sets_stop a" and "list_all is_writer ws"
  proof -
    have "run env ws (step env a s) = step env a s"
      using two [OF that(1)] that(2) by (intro writers_keep_set_state) simp_all
    then show ?thesis
      by (simp add: run_append)
  qed
  from one two three many show ?thesis by blast
qed

theorem stop_store_idempotent_witness:
  "g_stop_flag set_process = 1 \<and> is_writer (Ctrl CTRL_C_EVENT)
   \<and> step example_env (Ctrl CTRL_C_EVENT) set_process = set_process
   \<and> sets_stop Timeout \<and> sets_stop (Ctrl CTRL_CLOSE_EVENT)
   \<and> list_all is_writer [Ctrl CTRL_C_EVENT, Timeout, Ctrl CTRL_LOGOFF_EVENT]
   \<and> step example_env (Ctrl CTRL_CLOSE_EVENT) (step example_env Timeout initial) = step example_env Timeout initial
   \<and> run example_env (Timeout # [Ctrl CTRL_C_EVENT, Timeout, Ctrl CTRL_LOGOFF_EVENT] @ [Spawn 0, Run 0]) initial
       = run example_env (Timeout # [Spawn 0, Run 0]) initial"
proof -
  have a: "sets_stop Timeout" and b: "sets_stop (Ctrl CTRL_CLOSE_EVENT)"
    by (simp_all add: sets_stop_def)
  have c: "list_all is_writer [Ctrl CTRL_C_EVENT, Timeout, Ctrl CTRL_LOGOFF_EVENT]"
    by (simp add: is_writer_def)
  have d: "g_stop_flag set_process = 1" "is_writer (Ctrl CTRL_C_EVENT)"
    by (simp_all add: set_process_def is_writer_def)
  show ?thesis
    using stop_store_idempotent [of initial Timeout example_env "Ctrl CTRL_CLOSE_EVENT"
        "[Ctrl CTRL_C_EVENT, Timeout, Ctrl CTRL_LOGOFF_EVENT]" "[Spawn 0, Run 0]"]
      stop_store_idempotent [of set_process "Ctrl CTRL_C_EVENT" example_env] a b c d
    by blast
qed

section \<open>The worker loop once the flag is set\<close>

lemma worker_step_when_set:
  assumes "flag \<noteq> 0" and "in_loop w \<or> pc w = Returned 0"
  shows "snd (worker_thread_step env k flag w) = []"
    and "steps_left (fst (worker_thread_step env k flag w)) = steps_left w - 1"
    and "finished env (fst (worker_thread_step env k flag w)) = finished env w"
    and "in_loop (fst (worker_thread_step env k flag w)) \<or> pc (fst (worker_thread_step env k flag w)) = Returned 0"
proof -
  show "snd (worker_thread_step env k flag w) = []"
    using assms by (cases "pc w") (simp_all add: worker_thread_step_def in_loop_def)
  show "steps_left (fst (worker_thread_step env k flag w)) = steps_left w - 1"
  proof (cases "pc w")
    case (Batch i)
    have "i < 100000 \<Longrightarrow> 100000 - (i + 1) + 2 = 100000 - i + 2 - 1"
      by arith
    then show ?thesis
      using Batch by (simp add: worker_thread_step_def steps_left_def)
  qed (use assms in \<open>simp_all add: worker_thread_step_def in_loop_def steps_left_def\<close>)
  show "finished env (fst (worker_thread_step env k flag w)) = finished env w"
  proof (cases "pc w")
    case (Batch i)
    show ?thesis
    proof (cases "i < 100000")
      case True
      then have "100000 - i = Suc (100000 - (i + 1))"
        by simp
      then show ?thesis
        using Batch True
        by (simp add: worker_thread_step_def finished_def iterations_left_def funpow_Suc_right del: funpow.simps)
    next
      case False
      then show ?thesis
        using Batch by (simp add: worker_thread_step_def finished_def iterations_left_def)
    qed
  qed (use assms in \<open>simp_all add: worker_thread_step_def finished_def iterations_left_def in_loop_def\<close>)
  show "in_loop (fst (worker_thread_step env k flag w)) \<or> pc (fst (worker_thread_step env k flag w)) = Returned 0"
    using assms by (cases "pc w") (simp_all add: worker_thread_step_def in_loop_def)
qed

lemma finished_done:
  assumes "in_loop w \<or> pc w = Returned 0" and "steps_left w = 0"
  shows "finished env w = w"
  using assms by (cases "pc w") (simp_all add: finished_def iterations_left_def steps_left_def in_loop_def)

lemma step_Run_when_set:
  assumes "g_stop_flag s \<noteq> 0" and "k < length (workers s)"
    and "in_loop (workers s ! k) \<or> pc (workers s ! k) = Returned 0"
  shows "step env (Run k) s
    = s\<lparr>workers := (workers s)[k := fst (worker_thread_step env k (g_stop_flag s) (workers s ! k))]\<rparr>"
  using assms worker_step_when_set(1) [of "g_stop_flag s" "workers s ! k" env k]
  by (simp add: step_def split_beta)

lemma step_other_worker:
  assumes "a \<noteq> Run k" and "k < length (workers s)"
  shows "workers (step env a s) ! k = workers s ! k \<and> k < length (workers (step env a s))"
proof (cases a)
  case (Ctrl c)
  then show ?thesis using assms by (simp add: step_Ctrl)
next
  case Timeout
  then show ?thesis using assms by (simp add: step_Timeout)
next
  case (Spawn p)
  then show ?thesis using assms by (simp add: step_def nth_append)
next
  case (Run j)
  then show ?thesis using assms by (auto simp: step_def split_beta)
qed

lemma worker_returns:
  assumes "g_stop_flag s \<noteq> 0" and "k < length (workers s)"
    and "in_loop (workers s ! k) \<or> pc (workers s ! k) = Returned 0"
    and "steps_left (workers s ! k) \<le> count_list sched (Run k)"
  shows "workers (run env sched s) ! k = finished env (workers s ! k)"
  using assms
proof (induction sched arbitrary: s)
  case Nil
  then show ?case by (simp add: finished_done)
next
  case (Cons a sched)
  have flag: "g_stop_flag (step env a s) \<noteq> 0"
    using Cons.prems(1) by (rule flag_step_nonzero)
  show ?case
  proof (cases "a = Run k")
    case True
    let ?w = "fst (worker_thread_step env k (g_stop_flag s) (workers s ! k))"
    have st: "step env a s = s\<lparr>workers := (workers s)[k := ?w]\<rparr>"
      unfolding True using Cons.prems(1,2,3) by (rule step_Run_when_set)
    have w: "workers (step env a s) ! k = ?w" and len: "k < length (workers (step env a s))"
      using Cons.prems(2) by (simp_all add: st)
    note facts = worker_step_when_set [OF Cons.prems(1) Cons.prems(3), of env k]
    have "workers (run env sched (step env a s)) ! k = finished env (workers (step env a s) ! k)"
    proof (rule Cons.IH [OF flag len])
      show "in_loop (workers (step env a s) ! k) \<or> pc (workers (step env a s) ! k) = Returned 0"
        unfolding w by (rule facts(4))
      show "steps_left (workers (step env a s) ! k) \<le> count_list sched (Run k)"
        unfolding w using facts(2) Cons.prems(4) True by simp
    qed
    then show ?thesis
      unfolding w by (simp add: facts(3))
  next
    case False
    have same: "workers (step env a s) ! k = workers s ! k" and len: "k < length (workers (step env a s))"
      using step_other_worker [OF False Cons.prems(2), of env] by simp_all
    have "workers (run env sched (step env a s)) ! k = finished env (workers (step env a s) ! k)"
    proof (rule Cons.IH [OF flag len])
      show "in_loop (workers (step env a s) ! k) \<or> pc (workers (step env a s) ! k) = Returned 0"
        unfolding same by (rule Cons.prems(3))
      show "steps_left (workers (step env a s) ! k) \<le> count_list sched (Run k)"
        unfolding same using Cons.prems(4) False by simp
    qed
    then show ?thesis
      by (simp add: same)
  qed
qed

lemma worker_alone:
  assumes "g_stop_flag s \<noteq> 0" and "k < length (workers s)"
    and "in_loop (workers s ! k) \<or> pc (workers s ! k) = Returned 0"
    and "steps_left (workers s ! k) \<le> n"
  shows "run env (replicate n (Run k)) s = s\<lparr>workers := (workers s)[k := finished env (workers s ! k)]\<rparr>"
  using assms
proof (induction n arbitrary: s)
  case 0
  then show ?case by (simp add: finished_done)
next
  case (Suc n)
  let ?w = "fst (worker_thread_step env k (g_stop_flag s) (workers s ! k))"
  let ?s = "s\<lparr>workers := (workers s)[k := ?w]\<rparr>"
  have st: "step env (Run k) s = ?s"
    using Suc.prems(1,2,3) by (rule step_Run_when_set)
  note facts = worker_step_when_set [OF Suc.prems(1) Suc.prems(3), of env k]
  have "run env (replicate n (Run k)) ?s = ?s\<lparr>workers := (workers ?s)[k := finished env (workers ?s ! k)]\<rparr>"
  proof (rule Suc.IH)
    show "g_stop_flag ?s \<noteq> 0" using Suc.prems(1) by simp
    show "k < length (workers ?s)" using Suc.prems(2) by simp
    show "in_loop (workers ?s ! k) \<or> pc (workers ?s ! k) = Returned 0"
      using Suc.prems(2) facts(4) by simp
    show "steps_left (workers ?s ! k) \<le> n"
      using Suc.prems(2,4) facts(2) by simp
  qed
  then show ?case
    using Suc.prems(2) by (simp add: st facts(3))
qed

text \<open>
  Claim C6. Take a worker inside its loop, at the test or anywhere in a batch, in a
  process whose flag is set. Under every schedule that lets this worker take the steps
  it has left, whatever the other threads do in between, it ends up returned with value
  0, having done only the rounds of arithmetic that were left of its current batch: at
  most 100000, none if it was at the test. It has at most two steps besides those
  rounds: leaving the batch, which leads to the test, and the test, which returns.
  Running the worker alone for these steps changes nothing in the process but this
  worker's own position and \<open>x\<close>: the flag, the other workers and both output streams
  are the same.
\<close>

theorem worker_returns_after_stop:
  assumes "g_stop_flag s \<noteq> 0" and "k < length (workers s)" and "in_loop (workers s ! k)"
  shows "(steps_left (workers s ! k) \<le> count_list sched (Run k) \<longrightarrow>
            workers (run env sched s) ! k = finished env (workers s ! k))
    \<and> run env (replicate (steps_left (workers s ! k)) (Run k)) s
        = s\<lparr>workers := (workers s)[k := finished env (workers s ! k)]\<rparr>
    \<and> pc (finished env (workers s ! k)) = Returned 0
    \<and> lpParam (finished env (workers s ! k)) = lpParam (workers s ! k)
    \<and> x (finished env (workers s ! k)) = (body env ^^ iterations_left (workers s ! k)) (x (workers s ! k))
    \<and> iterations_left (workers s ! k) \<le> 100000
    \<and> steps_left (workers s ! k) \<le> iterations_left (workers s ! k) + 2
    \<and> (pc (workers s ! k) = Check \<longrightarrow>
          step env (Run k) s = s\<lparr>workers := (workers s)[k := (workers s ! k)\<lparr>pc := Returned 0\<rparr>]\<rparr>)
    \<and> (pc (workers s ! k) = Batch 100000 \<longrightarrow> pc (workers (step env (Run k) s) ! k) = Check)"
proof -
  have cls: "in_loop (workers s ! k) \<or> pc (workers s ! k) = Returned 0"
    using assms(3) by simp
  have any: "workers (run env sched s) ! k = finished env (workers s ! k)"
    if "steps_left (workers s ! k) \<le> count_list sched (Run k)"
    using assms(1,2) cls that by (rule worker_returns)
  have alone: "run env (replicate (steps_left (workers s ! k)) (Run k)) s
      = s\<lparr>workers := (workers s)[k := finished env (workers s ! k)]\<rparr>"
    using assms(1,2) cls by (rule worker_alone) simp
  have fin: "pc (finished env (workers s ! k)) = Returned 0"
    "lpParam (finished env (workers s ! k)) = lpParam (workers s ! k)"
    "x (finished env (workers s ! k)) = (body env ^^ iterations_left (workers s ! k)) (x (workers s ! k))"
    by (simp_all add: finished_def)
  have iters: "iterations_left (workers s ! k) \<le> 100000"
    by (cases "pc (workers s ! k)") (simp_all add: iterations_left_def)
  have steps: "steps_left (workers s ! k) \<le> iterations_left (workers s ! k) + 2"
    by (cases "pc (workers s ! k)") (simp_all add: iterations_left_def steps_left_def)
  have check: "step env (Run k) s = s\<lparr>workers := (workers s)[k := (workers s ! k)\<lparr>pc := Returned 0\<rparr>]\<rparr>"
    if "pc (workers s ! k) = Check"
    using assms(1,2) that by (simp add: step_def worker_thread_step_def)
  have boundary: "pc (workers (step env (Run k) s) ! k) = Check"
    if "pc (workers s ! k) = Batch 100000"
    using assms(2) that by (simp add: step_def worker_thread_step_def)
  from any alone fin iters steps check boundary show ?thesis by blast
qed

theorem worker_returns_after_stop_witness:
  "g_stop_flag stopping_process \<noteq> 0 \<and> 0 < length (workers stopping_process)
   \<and> in_loop (workers stopping_process ! 0)
   \<and> steps_left (workers stopping_process ! 0) \<le> count_list [Run 0, Timeout, Run 0, Run 0] (Run 0)
   \<and> workers (run example_env [Run 0, Timeout, Run 0, Run 0] stopping_process) ! 0
       = \<lparr>lpParam = 0, pc = Returned 0, x = 8\<rparr>
   \<and> g_stop_flag set_process \<noteq> 0 \<and> 0 < length (workers set_process) \<and> 1 < length (workers set_process)
   \<and> in_loop (workers set_process ! 0) \<and> pc (workers set_process ! 0) = Check
   \<and> step example_env (Run 0) set_process
       = set_process\<lparr>workers := (workers set_process)[0 := (workers set_process ! 0)\<lparr>pc := Returned 0\<rparr>]\<rparr>
   \<and> in_loop (workers set_process ! 1) \<and> pc (workers set_process ! 1) = Batch 100000
   \<and> pc (workers (step example_env (Run 1) set_process) ! 1) = Check"
proof -
  have a: "g_stop_flag stopping_process \<noteq> 0"
    by (simp add: stopping_process_def)
  have b: "0 < length (workers stopping_process)"
    by (simp add: stopping_process_def)
  have c: "in_loop (workers stopping_process ! 0)"
    by (simp add: stopping_process_def in_loop_def)
  have d: "steps_left (workers stopping_process ! 0) \<le> count_list [Run 0, Timeout, Run 0, Run 0] (Run 0)"
    by (simp add: stopping_process_def steps_left_def)
  have e: "finished example_env (workers stopping_process ! 0) = \<lparr>lpParam = 0, pc = Returned 0, x = 8\<rparr>"
    by (simp add: stopping_process_def finished_def iterations_left_def example_env_def)
  have f: "g_stop_flag set_process \<noteq> 0" "0 < length (workers set_process)" "1 < length (workers set_process)"
    by (simp_all add: set_process_def)
  have g: "in_loop (workers set_process ! 0)" "pc (workers set_process ! 0) = Check"
    by (simp_all add: set_process_def in_loop_def)
  have h: "in_loop (workers set_process ! 1)" "pc (workers set_process ! 1) = Batch 100000"
    by (simp_all add: set_process_def in_loop_def)
  show ?thesis
    using worker_returns_after_stop [OF a b c, of "[Run 0, Timeout, Run 0, Run 0]" example_env]
      worker_returns_after_stop [OF f(1) f(2) g(1), of "[]" example_env]
      worker_returns_after_stop [OF f(1) f(3) h(1), of "[]" example_env]
      a b c d f g h
    unfolding e by blast
qed

end
